theory Spec2Isabelle
  imports Main "HOL-Library.Product_Lexorder"
begin

section \<open>The upgrade command (aries_cloudagent/commands/upgrade.py)\<close>

subsection \<open>Exceptions\<close>

text \<open>
  The exception classes the command meets.  \<open>UpgradeError\<close> is declared in upgrade.py as a
  subclass of \<open>BaseError\<close>; \<open>StorageNotFoundError\<close> and \<open>ClassNotFoundError\<close> are imported
  and are subclasses of \<open>BaseError\<close> too; \<open>BaseError\<close> stands for any other subclass of it
  (a storage or wallet error).  \<open>TypeError\<close>, \<open>ValueError\<close> and \<open>IndexError\<close> are Python's
  own and \<open>OtherException\<close> is any exception outside \<open>BaseError\<close>: the handler at the end of
  \<open>upgrade\<close> does not catch these.
\<close>

datatype exn_class =
    UpgradeError
  | StorageNotFoundError
  | ClassNotFoundError
  | BaseError
  | TypeError
  | ValueError
  | IndexError
  | OtherException

datatype exn = Exn (exn_class: exn_class) (exn_str: string)

fun is_BaseError :: "exn_class \<Rightarrow> bool" where
  "is_BaseError UpgradeError = True"
| "is_BaseError StorageNotFoundError = True"
| "is_BaseError ClassNotFoundError = True"
| "is_BaseError BaseError = True"
| "is_BaseError TypeError = False"
| "is_BaseError ValueError = False"
| "is_BaseError IndexError = False"
| "is_BaseError OtherException = False"

subsection \<open>Storage\<close>

text \<open>
  Modelled from the spec: the storage layer (\<open>BaseStorage\<close>, \<open>StorageRecord\<close>) is imported by
  upgrade.py and is not among the sources.  The spec says the utility "maintains a single
  stored schema-version marker"; the store is a list of records, each with the four fields
  of \<open>StorageRecord\<close> (type, value, tags, id).  \<open>find_record\<close> returns the one record of a
  type, raises \<open>StorageNotFoundError\<close> when there is none (the case upgrade.py handles) and
  a storage error when there are several; \<open>add_record\<close> stores a record under an unused
  id; \<open>update_record\<close> replaces the value and the tags of the record with the given type
  and id, and raises \<open>StorageNotFoundError\<close> when the store has no such record.
\<close>

record storage_record =
  rec_type :: string
  rec_value :: string
  rec_tags :: "(string \<times> string) list"
  rec_id :: nat

type_synonym storage = "storage_record list"

definition RECORD_TYPE_ACAPY_VERSION :: string where
  "RECORD_TYPE_ACAPY_VERSION = ''acapy_version''"

definition find_record :: "storage \<Rightarrow> string \<Rightarrow> exn + storage_record" where
  "find_record st type_filter =
     (case filter (\<lambda>r. rec_type r = type_filter) st of
        [] \<Rightarrow> Inl (Exn StorageNotFoundError ''Record not found'')
      | [r] \<Rightarrow> Inr r
      | _ \<Rightarrow> Inl (Exn BaseError ''Duplicate records found''))"

definition fresh_id :: "storage \<Rightarrow> nat" where
  "fresh_id st = Suc (fold max (map rec_id st) 0)"

definition add_record :: "storage \<Rightarrow> string \<Rightarrow> string \<Rightarrow> storage" where
  "add_record st ty v =
     st @ [\<lparr>rec_type = ty, rec_value = v, rec_tags = [], rec_id = fresh_id st\<rparr>]"

definition same_record :: "storage_record \<Rightarrow> storage_record \<Rightarrow> bool" where
  "same_record r x = (rec_type x = rec_type r \<and> rec_id x = rec_id r)"

definition update_record ::
  "storage \<Rightarrow> storage_record \<Rightarrow> string \<Rightarrow> (string \<times> string) list \<Rightarrow> exn + storage" where
  "update_record st r v tags =
     (if list_ex (same_record r) st
      then Inr (map (\<lambda>x. if same_record r x then x\<lparr>rec_value := v, rec_tags := tags\<rparr> else x) st)
      else Inl (Exn StorageNotFoundError ''Record not found''))"

subsection \<open>The world the command runs in\<close>

text \<open>
  The state \<open>upgrade\<close> reads and changes: the store of the root profile, the calls it makes
  (in order) and what it prints.  The trace has an entry for every call of
  \<open>ClassLoader.load_class\<close> (with the path), every call of \<open>save\<close> on a record (with the
  path its class was loaded from) and every call of a data-migration callable (with its
  name).  \<open>'r\<close> is the type of the record objects a class's \<open>query\<close> returns.
\<close>

datatype 'r event =
    LoadClass string
  | Save string 'r
  | UpdateExisting string

record 'r world =
  storage :: storage
  trace :: "'r event list"
  stdout :: "string list"

text \<open>
  What upgrade.py takes from modules that are not among the sources, as parameters:
  \<open>version\<close> is \<open>__version__\<close>; \<open>build_context\<close> and \<open>wallet_config\<close> say whether building the
  context and opening the root profile raise; \<open>load_class\<close> is \<open>ClassLoader.load_class\<close>;
  \<open>profile_close\<close> says whether closing the root profile raises.  A loaded class answers
  \<open>issubclass(record_type, BaseRecord)\<close>, prints as \<open>cls_str\<close>, and has the two methods the
  command calls: \<open>query\<close> reads the store, \<open>save\<close> writes one record to it (and may raise
  after a partial write).  Opening a session on the root profile and injecting its storage
  are taken to succeed.
\<close>

record 'r pyclass =
  cls_str :: string
  is_BaseRecord :: bool
  query :: "storage \<Rightarrow> exn + 'r list"
  save :: "'r \<Rightarrow> storage \<Rightarrow> exn option \<times> storage"

record 'r env =
  version :: string
  build_context :: "exn option"
  wallet_config :: "exn option"
  load_class :: "string \<Rightarrow> exn + 'r pyclass"
  profile_close :: "exn option"

subsection \<open>Settings\<close>

text \<open>
  The two settings the command reads, \<open>upgrade.from_version\<close> and \<open>upgrade.config\<close>.  A
  dict is an association list with distinct keys (\<open>map_of\<close> looks a key up, \<open>map fst\<close>
  lists the keys in the dict's order); \<open>None\<close> is an absent key.  An entry of
  \<open>upgrade.config\<close> is tested for the keys \<open>resave_records\<close> (a list of class paths) and
  \<open>update_existing_records\<close> (only its presence is read).
\<close>

record version_config =
  key_resave_records :: "string list option"
  key_update_existing_records :: "bool option"

record settings =
  setting_from_version :: "string option"
  setting_config :: "(string \<times> version_config) list option"

subsection \<open>VersionUpgradeConfig\<close>

text \<open>
  A data-migration callable takes the root profile; here it is named and acts on the
  store.  \<open>update_existing_records\<close> is the one callable upgrade.py defines: its body is \<open>pass\<close>.
\<close>

record callable =
  fn_name :: string
  fn_run :: "storage \<Rightarrow> exn option \<times> storage"

definition update_existing_records :: callable where
  "update_existing_records =
     \<lparr>fn_name = ''update_existing_records'', fn_run = (\<lambda>st. (None, st))\<rparr>"

text \<open>
  An entry of the dict given to \<open>VersionUpgradeConfig\<close> either has the key
  \<open>update_existing_function_inst\<close> (\<open>Some f\<close>) or not.
\<close>

definition CONFIG_v7_3 :: "(string \<times> callable option) list" where
  "CONFIG_v7_3 = [(''v0.7.2'', Some update_existing_records)]"

definition setup_config :: "(string \<times> callable option) list \<Rightarrow> (string \<rightharpoonup> callable option)" where
  "setup_config config_dict =
     fold (\<lambda>(ver, config) m. m(ver \<mapsto> config)) config_dict Map.empty"

definition get_update_existing_func :: "(string \<rightharpoonup> callable option) \<Rightarrow> string \<Rightarrow> callable option" where
  "get_update_existing_func config ver =
     (case config ver of Some c \<Rightarrow> c | None \<Rightarrow> None)"

subsection \<open>Sorting the configured versions\<close>

text \<open>
  \<open>x.split(".")\<close>: the pieces between the dots, at least one.
\<close>

fun py_split :: "char \<Rightarrow> string \<Rightarrow> string list" where
  "py_split sep [] = [[]]"
| "py_split sep (c # cs) =
     (let r = py_split sep cs
      in if c = sep then [] # r else (c # hd r) # tl r)"

text \<open>
  \<open>int(s)\<close> on a string of ASCII characters: white space around, an optional sign, decimal
  digits, single underscores between digits.  \<open>None\<close> is \<open>ValueError\<close>.
\<close>

definition is_digit :: "char \<Rightarrow> bool" where
  "is_digit c = (48 \<le> (of_char c :: nat) \<and> (of_char c :: nat) \<le> 57)"

definition digit_val :: "char \<Rightarrow> int" where
  "digit_val c = int (of_char c) - 48"

definition py_isspace :: "char \<Rightarrow> bool" where
  "py_isspace c = ((of_char c :: nat) \<in> {9, 10, 11, 12, 13, 28, 29, 30, 31, 32})"

definition py_strip :: "string \<Rightarrow> string" where
  "py_strip s = rev (dropWhile py_isspace (rev (dropWhile py_isspace s)))"

fun digits_val :: "string \<Rightarrow> int \<Rightarrow> bool \<Rightarrow> int option" where
  "digits_val [] acc prev = (if prev then Some acc else None)"
| "digits_val (c # cs) acc prev =
     (if is_digit c then digits_val cs (10 * acc + digit_val c) True
      else if c = CHR ''_'' \<and> prev then digits_val cs acc False
      else None)"

definition py_int :: "string \<Rightarrow> int option" where
  "py_int s =
     (case py_strip s of
        [] \<Rightarrow> None
      | c # cs \<Rightarrow>
          if c = CHR ''-'' then map_option uminus (digits_val cs 0 False)
          else if c = CHR ''+'' then digits_val cs 0 False
          else digits_val (c # cs) 0 False)"

text \<open>
  The sort key of line 102: \<open>(int(y[0][1:]), int(y[1]), int(y[2]))\<close> for \<open>y = x.split(".")\<close>,
  evaluated left to right.
\<close>

definition version_key :: "string \<Rightarrow> exn + (int \<times> int \<times> int)" where
  "version_key x =
     (let y = py_split CHR ''.'' x in
      (case py_int (drop 1 (hd y)) of
         None \<Rightarrow> Inl (Exn ValueError ''invalid literal for int()'')
       | Some a \<Rightarrow>
           if length y < 2 then Inl (Exn IndexError ''list index out of range'')
           else (case py_int (y ! 1) of
              None \<Rightarrow> Inl (Exn ValueError ''invalid literal for int()'')
            | Some b \<Rightarrow>
                if length y < 3 then Inl (Exn IndexError ''list index out of range'')
                else (case py_int (y ! 2) of
                   None \<Rightarrow> Inl (Exn ValueError ''invalid literal for int()'')
                 | Some c \<Rightarrow> Inr (a, b, c)))))"

text \<open>
  \<open>sorted(xs, key=...)\<close>: the keys are computed in the order of the list, the first one
  that raises ends the call; the sort is stable.
\<close>

fun keys_of :: "string list \<Rightarrow> exn + (int \<times> int \<times> int) list" where
  "keys_of [] = Inr []"
| "keys_of (x # xs) =
     (case version_key x of
        Inl e \<Rightarrow> Inl e
      | Inr k \<Rightarrow> (case keys_of xs of Inl e \<Rightarrow> Inl e | Inr ks \<Rightarrow> Inr (k # ks)))"

definition sorted_versions :: "string list \<Rightarrow> exn + string list" where
  "sorted_versions xs =
     (case keys_of xs of
        Inl e \<Rightarrow> Inl e
      | Inr ks \<Rightarrow> Inr (map snd (sort_key fst (zip ks xs))))"

text \<open>\<open>xs.index(x)\<close>: the first position of \<open>x\<close>, \<open>ValueError\<close> when it is not in the list.\<close>

fun py_index :: "'a list \<Rightarrow> 'a \<Rightarrow> nat option" where
  "py_index [] x = None"
| "py_index (y # ys) x = (if y = x then Some 0 else map_option Suc (py_index ys x))"

text \<open>\<open>xs[i:]\<close>: a negative start counts from the end and is clipped at the front.\<close>

definition py_slice_from :: "'a list \<Rightarrow> int \<Rightarrow> 'a list" where
  "py_slice_from xs i =
     (if i < 0 then drop (nat (max 0 (int (length xs) + i))) xs else drop (nat i) xs)"

text \<open>
  Lines 98 to 111: the versions the loop of \<open>upgrade\<close> goes through, from the keys of
  \<open>upgrade.config\<close> and the version to upgrade from.
\<close>

definition versions_to_run :: "(string \<times> version_config) list \<Rightarrow> string \<Rightarrow> exn + string list" where
  "versions_to_run upgrade_configs from_version =
     (case sorted_versions (map fst upgrade_configs) of
        Inl e \<Rightarrow> Inl e
      | Inr sorted_versions_found_in_config \<Rightarrow>
          (case py_index sorted_versions_found_in_config from_version of
             None \<Rightarrow> Inl (Exn ValueError ''is not in list'')
           | Some i \<Rightarrow>
               Inr (py_slice_from sorted_versions_found_in_config (int i - 1))))"

subsection \<open>The steps of one version\<close>

text \<open>
  Lines 129 to 133: every record the query returned is saved, in order; the first save that
  raises ends the loop.  The call is entered in the trace before it is made.
\<close>

fun save_all :: "'r pyclass \<Rightarrow> string \<Rightarrow> 'r list \<Rightarrow> 'r world \<Rightarrow> exn option \<times> 'r world" where
  "save_all record_type record_path [] w = (None, w)"
| "save_all record_type record_path (r # rs) w =
     (let w1 = w\<lparr>trace := trace w @ [Save record_path r]\<rparr>
      in (case save record_type r (storage w1) of
            (Some e, st) \<Rightarrow> (Some e, w1\<lparr>storage := st\<rparr>)
          | (None, st) \<Rightarrow> save_all record_type record_path rs (w1\<lparr>storage := st\<rparr>)))"

text \<open>Lines 117 to 136: the body of the loop over \<open>resave_record_paths\<close>.\<close>

definition resave_path :: "'r env \<Rightarrow> string \<Rightarrow> 'r world \<Rightarrow> exn option \<times> 'r world" where
  "resave_path env record_path w0 =
     (let w = w0\<lparr>trace := trace w0 @ [LoadClass record_path]\<rparr>
      in (case load_class env record_path of
            Inl err \<Rightarrow>
              if exn_class err = ClassNotFoundError
              then (Some (Exn UpgradeError (''Unknown Record type '' @ record_path)), w)
              else (Some err, w)
          | Inr record_type \<Rightarrow>
              if \<not> is_BaseRecord record_type
              then (Some (Exn UpgradeError
                      (''Only BaseRecord can be resaved, found: '' @ cls_str record_type)), w)
              else (case query record_type (storage w) of
                      Inl e \<Rightarrow> (Some e, w)
                    | Inr all_records \<Rightarrow>
                        (case save_all record_type record_path all_records w of
                           (Some e, w1) \<Rightarrow> (Some e, w1)
                         | (None, w1) \<Rightarrow>
                             (None, w1\<lparr>stdout := stdout w1 @
                                [''All records of '' @ cls_str record_type @
                                 '' successfully re-saved.'']\<rparr>)))))"

fun resave_paths :: "'r env \<Rightarrow> string list \<Rightarrow> 'r world \<Rightarrow> exn option \<times> 'r world" where
  "resave_paths env [] w = (None, w)"
| "resave_paths env (record_path # rest) w =
     (case resave_path env record_path w of
        (Some e, w1) \<Rightarrow> (Some e, w1)
      | (None, w1) \<Rightarrow> resave_paths env rest w1)"

text \<open>
  Lines 139 to 149: the callable is looked up under \<open>upgrade_from_version\<close>, the version
  the whole upgrade starts from, in the \<open>VersionUpgradeConfig\<close> built from \<open>CONFIG_v7_3\<close>.
\<close>

definition update_existing :: "string \<Rightarrow> 'r world \<Rightarrow> exn option \<times> 'r world" where
  "update_existing from_version w =
     (case get_update_existing_func (setup_config CONFIG_v7_3) from_version of
        None \<Rightarrow>
          (Some (Exn UpgradeError
             (''No update_existing_records function specified for '' @ from_version)), w)
      | Some f \<Rightarrow>
          (let w1 = w\<lparr>trace := trace w @ [UpdateExisting (fn_name f)]\<rparr>
           in (case fn_run f (storage w1) of (e, st) \<Rightarrow> (e, w1\<lparr>storage := st\<rparr>))))"

text \<open>
  Lines 112 to 149: the body of the loop over the versions.  \<open>from_version\<close> is
  \<open>upgrade_from_version\<close>, \<open>from_version_config\<close> the version of this step.
\<close>

definition upgrade_version ::
  "'r env \<Rightarrow> (string \<times> version_config) list \<Rightarrow> string \<Rightarrow> string \<Rightarrow> 'r world
     \<Rightarrow> exn option \<times> 'r world" where
  "upgrade_version env upgrade_configs from_version from_version_config w =
     (case map_of upgrade_configs from_version_config of
        None \<Rightarrow> (Some (Exn TypeError ''argument of type NoneType is not iterable''), w)
      | Some upgrade_config \<Rightarrow>
          (case (case key_resave_records upgrade_config of
                   None \<Rightarrow> (None, w)
                 | Some resave_record_paths \<Rightarrow> resave_paths env resave_record_paths w) of
             (Some e, w1) \<Rightarrow> (Some e, w1)
           | (None, w1) \<Rightarrow>
               (case key_update_existing_records upgrade_config of
                  None \<Rightarrow> (None, w1)
                | Some b \<Rightarrow> update_existing from_version w1)))"

fun upgrade_versions ::
  "'r env \<Rightarrow> (string \<times> version_config) list \<Rightarrow> string \<Rightarrow> string list \<Rightarrow> 'r world
     \<Rightarrow> exn option \<times> 'r world" where
  "upgrade_versions env upgrade_configs from_version [] w = (None, w)"
| "upgrade_versions env upgrade_configs from_version (from_version_config # rest) w =
     (case upgrade_version env upgrade_configs from_version from_version_config w of
        (Some e, w1) \<Rightarrow> (Some e, w1)
      | (None, w1) \<Rightarrow> upgrade_versions env upgrade_configs from_version rest w1)"

subsection \<open>The command\<close>

text \<open>
  Lines 66 to 87: the version to upgrade from, with the version record when the store
  has one.
\<close>

definition resolve_from_version ::
  "settings \<Rightarrow> 'r world \<Rightarrow> (exn + (storage_record option \<times> string)) \<times> 'r world" where
  "resolve_from_version s w =
     (case find_record (storage w) RECORD_TYPE_ACAPY_VERSION of
        Inr version_storage_record \<Rightarrow>
          (Inr (Some version_storage_record, rec_value version_storage_record),
           (case setting_from_version s of
              None \<Rightarrow> w
            | Some v \<Rightarrow>
                w\<lparr>stdout := stdout w @
                  [''version '' @ rec_value version_storage_record @
                   '' found in storage, --from-version will be ignored.'']\<rparr>))
      | Inl e \<Rightarrow>
          if exn_class e = StorageNotFoundError
          then (case setting_from_version s of
                  Some v \<Rightarrow> (Inr (None, v), w)
                | None \<Rightarrow>
                    (Inl (Exn UpgradeError
                       ''ACA-Py version not found in storage and no --from-version specified.''),
                     w))
          else (Inl e, w))"

text \<open>Lines 151 to 163: the version record is added, or the one found is updated.\<close>

definition store_version ::
  "storage_record option \<Rightarrow> string \<Rightarrow> 'r world \<Rightarrow> exn option \<times> 'r world" where
  "store_version version_storage_record upgrade_to_version w =
     (case version_storage_record of
        None \<Rightarrow>
          (None, w\<lparr>storage :=
             add_record (storage w) RECORD_TYPE_ACAPY_VERSION upgrade_to_version\<rparr>)
      | Some r \<Rightarrow>
          (case update_record (storage w) r upgrade_to_version [] of
             Inl e \<Rightarrow> (Some e, w)
           | Inr st \<Rightarrow> (None, w\<lparr>storage := st\<rparr>)))"

text \<open>
  Lines 98 to 164: the loop over the versions, the version record, the closing of the
  profile.
\<close>

definition run_upgrade ::
  "'r env \<Rightarrow> (string \<times> version_config) list \<Rightarrow> storage_record option \<Rightarrow> string \<Rightarrow> 'r world
     \<Rightarrow> exn option \<times> 'r world" where
  "run_upgrade env upgrade_configs version_storage_record from_version w1 =
     (case versions_to_run upgrade_configs from_version of
        Inl e \<Rightarrow> (Some e, w1)
      | Inr vs \<Rightarrow>
          (case upgrade_versions env upgrade_configs from_version vs w1 of
             (Some e, w2) \<Rightarrow> (Some e, w2)
           | (None, w2) \<Rightarrow>
               (case store_version version_storage_record (''v'' @ version env) w2 of
                  (Some e, w3) \<Rightarrow> (Some e, w3)
                | (None, w3) \<Rightarrow> (profile_close env, w3))))"

text \<open>Lines 88 to 97, then the rest: what \<open>upgrade\<close> does with the version to upgrade from.\<close>

definition upgrade_from ::
  "'r env \<Rightarrow> settings \<Rightarrow> storage_record option \<Rightarrow> string \<Rightarrow> 'r world
     \<Rightarrow> exn option \<times> 'r world" where
  "upgrade_from env s version_storage_record from_version w1 =
     (if from_version = ''v'' @ version env
      then (Some (Exn UpgradeError
              (''Version '' @ from_version @
               '' to upgrade from and current version to upgrade to '' @
               (''v'' @ version env) @ '' are same.'')), w1)
      else (case setting_config s of
              None \<Rightarrow> (Some (Exn TypeError ''argument of type NoneType is not iterable''), w1)
            | Some upgrade_configs \<Rightarrow>
                if from_version \<notin> set (map fst upgrade_configs)
                then (Some (Exn UpgradeError
                        (''No upgrade configuration found for '' @ from_version)), w1)
                else run_upgrade env upgrade_configs version_storage_record from_version w1))"

text \<open>Lines 62 to 164: the body of the \<open>try\<close>.\<close>

definition upgrade_body :: "'r env \<Rightarrow> settings \<Rightarrow> 'r world \<Rightarrow> exn option \<times> 'r world" where
  "upgrade_body env s w =
     (case wallet_config env of
        Some e \<Rightarrow> (Some e, w)
      | None \<Rightarrow>
          (case resolve_from_version s w of
             (Inl e, w1) \<Rightarrow> (Some e, w1)
           | (Inr (version_storage_record, from_version), w1) \<Rightarrow>
               upgrade_from env s version_storage_record from_version w1))"

text \<open>
  \<open>upgrade\<close>: the context is built outside the \<open>try\<close>; a \<open>BaseError\<close> raised inside it is
  raised again as an \<open>UpgradeError\<close>, any other exception passes.  The result is the
  exception raised (\<open>None\<close> when the call returns) and the world the call leaves.
\<close>

definition upgrade :: "'r env \<Rightarrow> settings \<Rightarrow> 'r world \<Rightarrow> exn option \<times> 'r world" where
  "upgrade env s w =
     (case build_context env of
        Some e \<Rightarrow> (Some e, w)
      | None \<Rightarrow>
          (case upgrade_body env s w of
             (Some e, w1) \<Rightarrow>
               if is_BaseError (exn_class e)
               then (Some (Exn UpgradeError (''Error during upgrade: '' @ exn_str e)), w1)
               else (Some e, w1)
           | (None, w1) \<Rightarrow> (None, w1)))"

subsection \<open>Predicates of the statements\<close>

text \<open>The version records of a store: the records \<open>find_record\<close> looks among.\<close>

definition version_records :: "storage \<Rightarrow> storage_record list" where
  "version_records st = filter (\<lambda>r. rec_type r = RECORD_TYPE_ACAPY_VERSION) st"


text \<open>
  A path is accepted when its class loads and is a subclass of \<open>BaseRecord\<close>; it is rejected
  when loading raises a \<open>BaseError\<close> (\<open>ClassNotFoundError\<close> is one) or the class is not a
  subclass of \<open>BaseRecord\<close>.
\<close>

definition class_accepted :: "'r env \<Rightarrow> string \<Rightarrow> bool" where
  "class_accepted env p = (case load_class env p of Inl err \<Rightarrow> False | Inr c \<Rightarrow> is_BaseRecord c)"

definition class_rejected :: "'r env \<Rightarrow> string \<Rightarrow> bool" where
  "class_rejected env p =
     (case load_class env p of
        Inl err \<Rightarrow> is_BaseError (exn_class err)
      | Inr c \<Rightarrow> \<not> is_BaseRecord c)"

text \<open>
  The invariant of the steps: what a step adds to the trace saves only through accepted
  paths, and a step that loaded a rejected path ended with a \<open>BaseError\<close>.
\<close>

definition resave_ok :: "'r env \<Rightarrow> 'r world \<Rightarrow> exn option \<times> 'r world \<Rightarrow> bool" where
  "resave_ok env w res =
     (\<exists>evs. trace (snd res) = trace w @ evs \<and>
        (\<forall>p r. Save p r \<in> set evs \<longrightarrow> class_accepted env p) \<and>
        (\<forall>p. LoadClass p \<in> set evs \<longrightarrow> class_rejected env p \<longrightarrow>
           (\<exists>err. fst res = Some err \<and> is_BaseError (exn_class err))))"

text \<open>
  Two worlds with the same store and the same trace (what was printed may differ), and two
  outcomes of a call that raise the same and leave such worlds.
\<close>

definition same_effects :: "'r world \<Rightarrow> 'r world \<Rightarrow> bool" where
  "same_effects w w' = (storage w = storage w' \<and> trace w = trace w')"

definition same_outcome :: "exn option \<times> 'r world \<Rightarrow> exn option \<times> 'r world \<Rightarrow> bool" where
  "same_outcome a b = (fst a = fst b \<and> same_effects (snd a) (snd b))"

subsection \<open>Concrete inputs\<close>

text \<open>
  An installation of version 0.7.3 with one record class that has two records, a class
  that is not a record class, a store with one connection record and the version record,
  and three settings of \<open>upgrade.config\<close>.
\<close>

definition example_class :: "nat pyclass" where
  "example_class =
     \<lparr>cls_str = ''ConnRecord'', is_BaseRecord = True,
      query = (\<lambda>st. Inr [1, 2]), save = (\<lambda>r st. (None, st))\<rparr>"

definition example_other_class :: "nat pyclass" where
  "example_other_class =
     \<lparr>cls_str = ''dict'', is_BaseRecord = False,
      query = (\<lambda>st. Inr []), save = (\<lambda>r st. (None, st))\<rparr>"

definition example_env :: "nat env" where
  "example_env =
     \<lparr>version = ''0.7.3'', build_context = None, wallet_config = None,
      load_class = (\<lambda>p. if p = ''models.ConnRecord'' then Inr example_class
                         else if p = ''builtins.dict'' then Inr example_other_class
                         else Inl (Exn ClassNotFoundError p)),
      profile_close = None\<rparr>"

definition example_store :: "string \<Rightarrow> storage" where
  "example_store v =
     [\<lparr>rec_type = ''connection'', rec_value = ''c1'', rec_tags = [], rec_id = 1\<rparr>,
      \<lparr>rec_type = RECORD_TYPE_ACAPY_VERSION, rec_value = v, rec_tags = [], rec_id = 5\<rparr>]"

definition example_world :: "storage \<Rightarrow> nat world" where
  "example_world st = \<lparr>storage = st, trace = [], stdout = []\<rparr>"

definition no_steps :: version_config where
  "no_steps = \<lparr>key_resave_records = None, key_update_existing_records = None\<rparr>"

definition example_config :: "(string \<times> version_config) list" where
  "example_config =
     [(''v0.7.0'', no_steps),
      (''v0.7.1'', no_steps\<lparr>key_resave_records := Some [''models.ConnRecord'']\<rparr>),
      (''v0.7.2'', no_steps\<lparr>key_update_existing_records := Some True\<rparr>)]"

definition resave_config :: "(string \<times> version_config) list" where
  "resave_config =
     [(''v0.7.2'', no_steps),
      (''v0.7.0'', no_steps\<lparr>key_resave_records := Some [''models.ConnRecord'']\<rparr>),
      (''v0.7.1'', no_steps\<lparr>key_resave_records := Some [''models.ConnRecord'']\<rparr>)]"

definition rejecting_config :: "(string \<times> version_config) list" where
  "rejecting_config =
     [(''v0.7.2'',
       no_steps\<lparr>key_resave_records := Some [''models.ConnRecord'', ''builtins.dict'']\<rparr>)]"

section \<open>Linked-data proofs: sign and verify\<close>

text \<open>
  Modelled from the spec: the proof engine (\<open>sign\<close>, \<open>verify\<close>, the suites, the purposes, the
  key pairs, the document loader) is not among the sources; only a test of it is.  The
  definitions below follow sections 3, 4 and 7 of the spec.  What the spec leaves to
  collaborators is a parameter: the canonicalization and the digest of a suite, the raw
  sign and verify of a key pair, the resolution of a verification method by the document
  loader.
\<close>

subsection \<open>Data model (spec, section 3)\<close>

text \<open>
  Modelled from the spec: the errors of section 7, and \<open>UnsupportedOperationError\<close> of
  section 6 (a key pair that cannot sign).  A failure of the loader shows as
  \<open>CanonicalizationError\<close> or \<open>VerificationMethodResolutionError\<close>, as section 6 has it
  propagate.
\<close>

datatype ld_error =
    CanonicalizationError
  | UnsupportedKeyTypeError
  | SignatureMismatchError
  | PurposeMismatchError
  | UnsupportedSuiteError
  | VerificationMethodResolutionError
  | UnsupportedOperationError

text \<open>
  Modelled from the spec: the failures of section 7 that \<open>verify\<close> raises are the
  infrastructure failures; the cryptographic and purpose failures are kept in the result.
\<close>

fun infrastructure_failure :: "ld_error \<Rightarrow> bool" where
  "infrastructure_failure CanonicalizationError = True"
| "infrastructure_failure VerificationMethodResolutionError = True"
| "infrastructure_failure UnsupportedKeyTypeError = False"
| "infrastructure_failure SignatureMismatchError = False"
| "infrastructure_failure PurposeMismatchError = False"
| "infrastructure_failure UnsupportedSuiteError = False"
| "infrastructure_failure UnsupportedOperationError = False"

datatype json = JString string | JArray "json list" | JObject "(string \<times> json) list"

text \<open>
  Modelled from the spec: a proof is its metadata (the proof options: type, created,
  verificationMethod, proofPurpose, and the purpose's challenge and domain) and the
  signature value.
\<close>

record proof_options =
  proof_type :: string
  created :: string
  verificationMethod :: string
  proofPurpose :: string
  challenge :: "string option"
  domain_name :: "string option"

record ld_proof = proof_options +
  signatureValue :: string

text \<open>
  Modelled from the spec: a document is a tree of string-keyed nodes; one reserved key
  holds the proof set.  \<open>content\<close> is every field but the reserved one, \<open>proofs\<close> is the proof
  set in its order.
\<close>

record document =
  content :: "(string \<times> json) list"
  proofs :: "ld_proof list"

text \<open>
  Modelled from the spec: the key pair handle (its key type, whether it holds private
  material, its public verification method, and the raw sign and verify of the key
  backend), the suite descriptor (its type identifier, its key type constraint, its
  canonicalization and its digest), the purpose (its term, and the challenge and domain of
  the call), and the verification result with one entry for each proof.
\<close>

record key_pair =
  key_type :: string
  can_sign :: bool
  public_verification_method :: string
  raw_sign :: "string \<Rightarrow> string"
  raw_verify :: "string \<Rightarrow> string \<Rightarrow> bool"

record suite =
  signature_type :: string
  key_type_constraint :: "string \<Rightarrow> bool"
  canonicalize :: "document \<Rightarrow> proof_options \<Rightarrow> string option"
  digest :: "string \<Rightarrow> string"

record purpose =
  purpose_term :: string
  purpose_challenge :: "string option"
  purpose_domain :: "string option"

record per_proof_result =
  result_suite :: string
  result_method :: string
  proof_verified :: bool
  proof_error :: "ld_error option"

record verification_result =
  verified :: bool
  results :: "per_proof_result list"

text \<open>
  Modelled from the spec: the document loader, as far as the engine uses it to turn a
  verification method into a key pair (\<open>None\<close>: the loader fails).  Its resolution of
  contexts is inside \<open>canonicalize\<close> (\<open>None\<close>: \<open>CanonicalizationError\<close>).
\<close>

record document_loader =
  resolve_method :: "string \<Rightarrow> key_pair option"

subsection \<open>Suite and purpose (spec, sections 4.2 and 4.3)\<close>

text \<open>
  Modelled from the spec: the verify-data of a document and proof options is the digest of
  their canonical form.
\<close>

definition verify_data :: "suite \<Rightarrow> document \<Rightarrow> proof_options \<Rightarrow> string option" where
  "verify_data s d opts = map_option (digest s) (canonicalize s d opts)"

text \<open>
  Modelled from the spec: \<open>createProof\<close> refuses a key pair of the wrong key type before
  any other work, computes the verify-data, has the key pair sign it and returns the proof
  options with the signature value.
\<close>

definition create_proof :: "suite \<Rightarrow> document \<Rightarrow> proof_options \<Rightarrow> key_pair \<Rightarrow> ld_error + ld_proof" where
  "create_proof s d opts kp =
     (if \<not> key_type_constraint s (key_type kp) then Inl UnsupportedKeyTypeError
      else (case verify_data s d opts of
              None \<Rightarrow> Inl CanonicalizationError
            | Some h \<Rightarrow>
                if \<not> can_sign kp then Inl UnsupportedOperationError
                else Inr (proof_options.extend opts
                            (ld_proof.fields (raw_sign kp h)))))"

text \<open>
  Modelled from the spec: \<open>verifyProof\<close> computes the verify-data again from the document
  without the proof and the proof's own metadata (without the signature value) and has the
  key pair check the signature.
\<close>

definition verify_proof :: "suite \<Rightarrow> ld_proof \<Rightarrow> document \<Rightarrow> key_pair \<Rightarrow> ld_error + bool" where
  "verify_proof s p d kp =
     (if \<not> key_type_constraint s (key_type kp) then Inl UnsupportedKeyTypeError
      else (case verify_data s d (proof_options.truncate p) of
              None \<Rightarrow> Inl CanonicalizationError
            | Some h \<Rightarrow>
                if raw_verify kp h (signatureValue p) then Inr True
                else Inl SignatureMismatchError))"

text \<open>
  Modelled from the spec: \<open>buildProofOptions\<close> gives the purpose term, the time of signing
  and the purpose's challenge and domain; \<open>sign\<close> merges the verification method and the
  suite's type into them.
\<close>

definition build_proof_options :: "purpose \<Rightarrow> string \<Rightarrow> string \<Rightarrow> string \<Rightarrow> proof_options" where
  "build_proof_options pu now method ty =
     \<lparr>proof_type = ty, created = now, verificationMethod = method,
      proofPurpose = purpose_term pu, challenge = purpose_challenge pu,
      domain_name = purpose_domain pu\<rparr>"

text \<open>
  Modelled from the spec: \<open>validate\<close> checks the proof's purpose against the term and, for
  a purpose that bears a challenge or a domain, the proof's challenge and domain against
  the caller's.
\<close>

definition validate :: "purpose \<Rightarrow> ld_proof \<Rightarrow> bool" where
  "validate pu p =
     (proofPurpose p = purpose_term pu \<and>
      (if purpose_challenge pu = None \<and> purpose_domain pu = None then True
       else challenge p = purpose_challenge pu \<and> domain_name p = purpose_domain pu))"

subsection \<open>The orchestrator (spec, section 4.4)\<close>

text \<open>
  Modelled from the spec: \<open>sign\<close>, steps 1 to 6.  The verification method is the caller's
  or the key pair's; the proofs of the suite's type are removed; the new proof is appended
  to the proofs that remain.  A failure is the underlying error, and the result is a new
  document (the input is a value of HOL, never changed).
\<close>

definition sign ::
  "document \<Rightarrow> suite \<Rightarrow> purpose \<Rightarrow> key_pair \<Rightarrow> string option \<Rightarrow> string \<Rightarrow> ld_error + document" where
  "sign d s pu kp method now =
     (let m = (case method of Some v \<Rightarrow> v | None \<Rightarrow> public_verification_method kp);
          d1 = d\<lparr>proofs := filter (\<lambda>p. proof_type p \<noteq> signature_type s) (proofs d)\<rparr>;
          opts = build_proof_options pu now m (signature_type s)
      in (case create_proof s d1 opts kp of
            Inl e \<Rightarrow> Inl e
          | Inr p \<Rightarrow> Inr (d1\<lparr>proofs := proofs d1 @ [p]\<rparr>)))"

text \<open>
  Modelled from the spec: \<open>verify\<close>, steps 2 to 5, for one proof and the document without
  it.  A proof no suite matches is an entry with \<open>UnsupportedSuiteError\<close>; a signature or
  key type failure and a purpose failure are entries with \<open>verified = false\<close>; a failure of
  the loader or of the canonicalization is raised.
\<close>

definition verify_one ::
  "suite list \<Rightarrow> purpose \<Rightarrow> document_loader \<Rightarrow> document \<Rightarrow> ld_proof \<Rightarrow> ld_error + per_proof_result" where
  "verify_one suites pu loader d p =
     (let entry = (\<lambda>ok err.
            \<lparr>result_suite = proof_type p, result_method = verificationMethod p,
             proof_verified = ok, proof_error = err\<rparr>)
      in (case find (\<lambda>s. signature_type s = proof_type p) suites of
            None \<Rightarrow> Inr (entry False (Some UnsupportedSuiteError))
          | Some s \<Rightarrow>
              (case resolve_method loader (verificationMethod p) of
                 None \<Rightarrow> Inl VerificationMethodResolutionError
               | Some kp \<Rightarrow>
                   (case verify_proof s p d kp of
                      Inl e \<Rightarrow>
                        if infrastructure_failure e then Inl e
                        else Inr (entry False (Some e))
                    | Inr signature_valid \<Rightarrow>
                        if validate pu p
                        then Inr (entry signature_valid None)
                        else Inr (entry False (Some PurposeMismatchError))))))"

text \<open>
  Modelled from the spec: the document "with that one proof removed", the proof being the
  one at position \<open>i\<close> of the proof set.
\<close>

definition without_proof :: "document \<Rightarrow> nat \<Rightarrow> document" where
  "without_proof d i = d\<lparr>proofs := take i (proofs d) @ drop (Suc i) (proofs d)\<rparr>"

text \<open>The outcomes of a sequence of calls: the first failure, or every result.\<close>

fun collect :: "('e + 'a) list \<Rightarrow> 'e + 'a list" where
  "collect [] = Inr []"
| "collect (x # xs) =
     (case x of
        Inl e \<Rightarrow> Inl e
      | Inr r \<Rightarrow> (case collect xs of Inl e \<Rightarrow> Inl e | Inr rs \<Rightarrow> Inr (r # rs)))"

text \<open>
  Modelled from the spec: every proof of the proof set in turn, each against the document
  with that one proof removed.
\<close>

definition verify_each ::
  "suite list \<Rightarrow> purpose \<Rightarrow> document_loader \<Rightarrow> document \<Rightarrow> ld_error + per_proof_result list" where
  "verify_each suites pu loader d =
     collect (map (\<lambda>i. verify_one suites pu loader (without_proof d i) (proofs d ! i))
                [0..<length (proofs d)])"

text \<open>
  Modelled from the spec: \<open>verify\<close>, steps 1 and 6.  An empty proof set gives
  \<open>verified = false\<close> and no entries; otherwise the result is verified when there is an
  entry and every entry is verified ("any mismatched-suite or failed proof forces overall
  verified=false").
\<close>

definition verify ::
  "document \<Rightarrow> suite list \<Rightarrow> purpose \<Rightarrow> document_loader \<Rightarrow> ld_error + verification_result" where
  "verify d suites pu loader =
     (if proofs d = [] then Inr \<lparr>verified = False, results = []\<rparr>
      else (case verify_each suites pu loader d of
              Inl e \<Rightarrow> Inl e
            | Inr rs \<Rightarrow> Inr \<lparr>verified = (rs \<noteq> [] \<and> list_all proof_verified rs), results = rs\<rparr>))"

subsection \<open>Predicates of the statements about sign and verify\<close>

text \<open>
  The proof at position \<open>i\<close> fails its check: no suite of the list has its type, or the
  key pair of its verification method has the wrong key type, or does not accept its
  signature value for the verify-data of the document, or the purpose does not validate
  it.
\<close>

definition proof_fails ::
  "suite list \<Rightarrow> purpose \<Rightarrow> document_loader \<Rightarrow> document \<Rightarrow> nat \<Rightarrow> bool" where
  "proof_fails suites pu loader d i =
     (let p = proofs d ! i
      in (case find (\<lambda>s. signature_type s = proof_type p) suites of
            None \<Rightarrow> True
          | Some s \<Rightarrow>
              (case resolve_method loader (verificationMethod p) of
                 None \<Rightarrow> False
               | Some kp \<Rightarrow>
                   (if \<not> key_type_constraint s (key_type kp) then True
                    else (case verify_data s (without_proof d i) (proof_options.truncate p) of
                            None \<Rightarrow> False
                          | Some h \<Rightarrow>
                              (if raw_verify kp h (signatureValue p) then \<not> validate pu p
                               else True))))))"

text \<open>
  No infrastructure failure: for every proof that a suite of the list matches, the loader
  resolves the verification method and the canonicalization gives a canonical form.
\<close>

definition infrastructure_ok :: "suite list \<Rightarrow> document_loader \<Rightarrow> document \<Rightarrow> bool" where
  "infrastructure_ok suites loader d =
     list_all (\<lambda>i.
        (case find (\<lambda>s. signature_type s = proof_type (proofs d ! i)) suites of
           None \<Rightarrow> True
         | Some s \<Rightarrow>
             resolve_method loader (verificationMethod (proofs d ! i)) \<noteq> None \<and>
             canonicalize s (without_proof d i) (proof_options.truncate (proofs d ! i)) \<noteq> None))
       [0..<length (proofs d)]"

text \<open>
  The key pairs the loader resolves for the proofs of a document accept a signature value
  for at most one digest (the signature scheme, idealised: no forgery, no collision).
\<close>

definition exact_signatures :: "document_loader \<Rightarrow> document \<Rightarrow> bool" where
  "exact_signatures loader d =
     (\<forall>p \<in> set (proofs d). \<forall>kp h h' sg.
        resolve_method loader (verificationMethod p) = Some kp \<longrightarrow>
        raw_verify kp h sg \<longrightarrow> raw_verify kp h' sg \<longrightarrow> h = h')"

text \<open>
  The change of the content to \<open>c\<close> takes part in the canonicalization: for every proof of
  the document, the document without it has a verify-data before and after the change, and
  the two differ.
\<close>

definition canonical_change :: "suite \<Rightarrow> document \<Rightarrow> (string \<times> json) list \<Rightarrow> bool" where
  "canonical_change s d c =
     list_all (\<lambda>i.
        (case (verify_data s (without_proof d i) (proof_options.truncate (proofs d ! i)),
               verify_data s (without_proof (d\<lparr>content := c\<rparr>) i)
                 (proof_options.truncate (proofs d ! i))) of
           (Some h, Some h') \<Rightarrow> h \<noteq> h'
         | _ \<Rightarrow> False))
       [0..<length (proofs d)]"

subsection \<open>Concrete inputs for sign and verify\<close>

text \<open>
  A suite whose canonical form lists the top-level string fields and the proof options, a
  key pair whose signature of a digest is the digest in brackets, the loader that knows
  this key pair, the assertion purpose, and the document of the spec's scenario.
\<close>

definition example_render :: "document \<Rightarrow> proof_options \<Rightarrow> string" where
  "example_render d opts =
     concat (map (\<lambda>(k, v). k @ ''='' @ (case v of JString t \<Rightarrow> t | _ \<Rightarrow> ''#'') @ '';'')
               (content d)) @
     proofPurpose opts @ '';'' @ created opts @ '';'' @ verificationMethod opts"

definition example_suite :: suite where
  "example_suite =
     \<lparr>signature_type = ''Ed25519Signature2020'',
      key_type_constraint = (\<lambda>t. t = ''ed25519''),
      canonicalize = (\<lambda>d opts. Some (example_render d opts)),
      digest = (\<lambda>b. b)\<rparr>"

definition example_key :: key_pair where
  "example_key =
     \<lparr>key_type = ''ed25519'', can_sign = True,
      public_verification_method = ''did:key:z6Mk#z6Mk'',
      raw_sign = (\<lambda>h. ''['' @ h @ '']''),
      raw_verify = (\<lambda>h sg. sg = ''['' @ h @ '']'')\<rparr>"

definition example_loader :: document_loader where
  "example_loader =
     \<lparr>resolve_method = (\<lambda>m. if m = ''did:key:z6Mk#z6Mk'' then Some example_key else None)\<rparr>"

definition assertion :: purpose where
  "assertion =
     \<lparr>purpose_term = ''assertionMethod'', purpose_challenge = None, purpose_domain = None\<rparr>"

definition example_document :: document where
  "example_document = \<lparr>content = [(''email'', JString ''a@example.com'')], proofs = []\<rparr>"

definition example_proof :: ld_proof where
  "example_proof =
     \<lparr>proof_type = ''Ed25519Signature2020'', created = ''2022'',
      verificationMethod = ''did:key:z6Mk#z6Mk'', proofPurpose = ''assertionMethod'',
      challenge = None, domain_name = None,
      signatureValue = ''[email=a@example.com;assertionMethod;2022;did:key:z6Mk#z6Mk]''\<rparr>"

definition unresolved_proof :: ld_proof where
  "unresolved_proof = example_proof\<lparr>verificationMethod := ''did:key:zNone#zNone''\<rparr>"

section \<open>Properties of the upgrade command\<close>

subsection \<open>The store\<close>





lemma update_record_found:
  assumes "version_records st = [r]"
  shows "\<exists>st'. update_record st r v tags = Inr st'"
proof -
  have "r \<in> set (version_records st)" using assms by simp
  then have "r \<in> set st" by (simp add: version_records_def)
  then show ?thesis by (auto simp: update_record_def list_ex_iff same_record_def)
qed

subsection \<open>The steps leave the version records alone\<close>




lemma get_update_existing_func_CONFIG:
  "get_update_existing_func (setup_config CONFIG_v7_3) v =
     (if v = ''v0.7.2'' then Some update_existing_records else None)"
  by (simp add: get_update_existing_func_def setup_config_def CONFIG_v7_3_def)




lemma resolve_from_version_unchanged:
  "resolve_from_version s w = (x, w') \<Longrightarrow> storage w' = storage w \<and> trace w' = trace w"
  by (auto simp: resolve_from_version_def split: sum.splits option.splits if_splits)






subsection \<open>What the steps add to the trace\<close>

lemma resave_ok_refl: "resave_ok env w (None, w)"
  by (simp add: resave_ok_def)

lemma resave_ok_same_trace: "trace w' = trace w \<Longrightarrow> resave_ok env w (e, w')"
  by (simp add: resave_ok_def)

lemma resave_ok_seq:
  assumes "resave_ok env w (None, w1)" and "resave_ok env w1 res"
  shows "resave_ok env w res"
proof -
  obtain evs1 where 1: "trace w1 = trace w @ evs1"
      "\<forall>p r. Save p r \<in> set evs1 \<longrightarrow> class_accepted env p"
      "\<forall>p. LoadClass p \<in> set evs1 \<longrightarrow> \<not> class_rejected env p"
    using assms(1) by (auto simp: resave_ok_def)
  obtain evs2 where 2: "trace (snd res) = trace w1 @ evs2"
      "\<forall>p r. Save p r \<in> set evs2 \<longrightarrow> class_accepted env p"
      "\<forall>p. LoadClass p \<in> set evs2 \<longrightarrow> class_rejected env p \<longrightarrow>
           (\<exists>err. fst res = Some err \<and> is_BaseError (exn_class err))"
    using assms(2) by (auto simp: resave_ok_def)
  have "trace (snd res) = trace w @ (evs1 @ evs2)" using 1 2 by simp
  moreover have "\<forall>p r. Save p r \<in> set (evs1 @ evs2) \<longrightarrow> class_accepted env p"
    using 1 2 by auto
  moreover have "\<forall>p. LoadClass p \<in> set (evs1 @ evs2) \<longrightarrow> class_rejected env p \<longrightarrow>
           (\<exists>err. fst res = Some err \<and> is_BaseError (exn_class err))"
    using 1 2 by auto
  ultimately show ?thesis unfolding resave_ok_def by blast
qed

lemma save_all_trace:
  "save_all c p rs w = (e, w') \<Longrightarrow> \<exists>evs. trace w' = trace w @ evs \<and> set evs \<subseteq> Save p ` set rs"
proof (induction rs arbitrary: w)
  case Nil
  then show ?case by simp
next
  case (Cons r rs)
  obtain e1 st where sv: "save c r (storage w) = (e1, st)" by force
  show ?case
  proof (cases e1)
    case None
    then have "save_all c p rs (w\<lparr>trace := trace w @ [Save p r], storage := st\<rparr>) = (e, w')"
      using Cons.prems sv by (simp add: Let_def)
    from Cons.IH[OF this] obtain evs where
      "trace w' = trace w @ [Save p r] @ evs" "set evs \<subseteq> Save p ` set rs" by auto
    then show ?thesis by (intro exI[of _ "Save p r # evs"]) auto
  next
    case (Some a)
    then have "trace w' = trace w @ [Save p r]" using Cons.prems sv by (auto simp: Let_def)
    then show ?thesis by (intro exI[of _ "[Save p r]"]) auto
  qed
qed

lemma resave_path_ok: "resave_ok env w (resave_path env p w)"
proof (cases "load_class env p")
  case (Inl err)
  then show ?thesis
    by (auto simp: resave_path_def resave_ok_def Let_def class_rejected_def)
next
  case (Inr c)
  show ?thesis
  proof (cases "is_BaseRecord c")
    case False
    then show ?thesis using Inr
      by (auto simp: resave_path_def resave_ok_def Let_def class_rejected_def)
  next
    case True
    then have acc: "class_accepted env p" "\<not> class_rejected env p"
      using Inr by (simp_all add: class_accepted_def class_rejected_def)
    define w1 where "w1 = w\<lparr>trace := trace w @ [LoadClass p]\<rparr>"
    show ?thesis
    proof (cases "query c (storage w)")
      case (Inl e)
      then show ?thesis using Inr True acc
        by (auto simp: resave_path_def resave_ok_def Let_def)
    next
      case (Inr rs)
      obtain e w2 where sa: "save_all c p rs w1 = (e, w2)" by force
      from save_all_trace[OF sa] obtain evs where
        evs: "trace w2 = trace w @ [LoadClass p] @ evs" "set evs \<subseteq> Save p ` set rs"
        by (auto simp: w1_def)
      have tr: "trace (snd (resave_path env p w)) = trace w @ (LoadClass p # evs)"
        using \<open>load_class env p = Inr c\<close> True Inr sa evs
        by (cases e) (auto simp: resave_path_def Let_def w1_def)
      have "\<forall>q r. Save q r \<in> set (LoadClass p # evs) \<longrightarrow> class_accepted env q"
        using evs(2) acc by auto
      moreover have "\<forall>q. LoadClass q \<in> set (LoadClass p # evs) \<longrightarrow> \<not> class_rejected env q"
        using evs(2) acc by auto
      ultimately show ?thesis unfolding resave_ok_def using tr by blast
    qed
  qed
qed

lemma resave_paths_ok: "resave_ok env w (resave_paths env ps w)"
proof (induction ps arbitrary: w)
  case Nil
  then show ?case by (simp add: resave_ok_refl)
next
  case (Cons p ps)
  obtain e w1 where r: "resave_path env p w = (e, w1)" by force
  have ok1: "resave_ok env w (e, w1)" using resave_path_ok[of env w p] r by simp
  show ?case
  proof (cases e)
    case None
    then show ?thesis using r ok1 Cons.IH[of w1] by (auto intro: resave_ok_seq)
  next
    case (Some a)
    then show ?thesis using r ok1 by simp
  qed
qed

lemma update_existing_ok: "resave_ok env w (update_existing f w)"
  by (auto simp: update_existing_def get_update_existing_func_CONFIG update_existing_records_def
      resave_ok_def Let_def)

lemma upgrade_version_ok: "resave_ok env w (upgrade_version env cfg f v w)"
proof (cases "map_of cfg v")
  case None
  then show ?thesis by (simp add: upgrade_version_def resave_ok_same_trace)
next
  case (Some uc)
  define r1 where "r1 = (case key_resave_records uc of None \<Rightarrow> (None, w) | Some ps \<Rightarrow> resave_paths env ps w)"
  have ok1: "resave_ok env w r1"
    by (auto simp: r1_def resave_ok_refl resave_paths_ok split: option.splits)
  obtain e w1 where r: "r1 = (e, w1)" by force
  show ?thesis
  proof (cases e)
    case None
    have "resave_ok env w1 (case key_update_existing_records uc of None \<Rightarrow> (None, w1) | Some b \<Rightarrow> update_existing f w1)"
      by (auto simp: resave_ok_refl update_existing_ok split: option.splits)
    then have "resave_ok env w (case key_update_existing_records uc of None \<Rightarrow> (None, w1) | Some b \<Rightarrow> update_existing f w1)"
      using ok1 r None by (auto intro: resave_ok_seq)
    then show ?thesis using Some r None by (simp add: upgrade_version_def r1_def)
  next
    case (Some a)
    then show ?thesis using \<open>map_of cfg v = Some uc\<close> r ok1 by (simp add: upgrade_version_def r1_def)
  qed
qed

lemma upgrade_versions_ok: "resave_ok env w (upgrade_versions env cfg f vs w)"
proof (induction vs arbitrary: w)
  case Nil
  then show ?case by (simp add: resave_ok_refl)
next
  case (Cons v vs)
  obtain e w1 where r: "upgrade_version env cfg f v w = (e, w1)" by force
  have ok1: "resave_ok env w (e, w1)" using upgrade_version_ok[of env w cfg f v] r by simp
  show ?case
  proof (cases e)
    case None
    then show ?thesis using r ok1 Cons.IH[of w1] by (auto intro: resave_ok_seq)
  next
    case (Some a)
    then show ?thesis using r ok1 by simp
  qed
qed

lemma store_version_trace: "store_version vr v w = (e, w') \<Longrightarrow> trace w' = trace w"
  by (auto simp: store_version_def split: option.splits sum.splits)

lemma run_upgrade_ok: "resave_ok env w1 (run_upgrade env cfg vr f w1)"
proof (cases "versions_to_run cfg f")
  case (Inl e)
  then show ?thesis by (simp add: run_upgrade_def resave_ok_same_trace)
next
  case (Inr vs)
  obtain e2 w2 where loop: "upgrade_versions env cfg f vs w1 = (e2, w2)" by force
  have ok2: "resave_ok env w1 (e2, w2)"
    using upgrade_versions_ok[of env w1 cfg f vs] loop by simp
  show ?thesis
  proof (cases e2)
    case (Some a)
    then show ?thesis using Inr loop ok2 by (simp add: run_upgrade_def)
  next
    case None
    obtain e3 w3 where st: "store_version vr (''v'' @ version env) w2 = (e3, w3)" by force
    have t3: "trace w3 = trace w2" using store_version_trace[OF st] .
    have "\<exists>e4. run_upgrade env cfg vr f w1 = (e4, w3)"
      using Inr loop None st by (cases e3) (simp_all add: run_upgrade_def)
    then obtain e4 where r: "run_upgrade env cfg vr f w1 = (e4, w3)" by blast
    have "resave_ok env w2 (e4, w3)" using t3 by (rule resave_ok_same_trace)
    then show ?thesis using resave_ok_seq[of env w1 w2] ok2 None r by simp
  qed
qed

lemma upgrade_from_ok: "resave_ok env w1 (upgrade_from env s vr f w1)"
  by (auto simp: upgrade_from_def resave_ok_same_trace run_upgrade_ok split: option.splits)

lemma upgrade_body_ok: "resave_ok env w (upgrade_body env s w)"
proof (cases "wallet_config env")
  case (Some e)
  then show ?thesis by (simp add: upgrade_body_def resave_ok_same_trace)
next
  case None
  obtain x w1 where res: "resolve_from_version s w = (x, w1)" by force
  have t1: "trace w1 = trace w" using resolve_from_version_unchanged[OF res] by simp
  have ok1: "resave_ok env w (None, w1)" using t1 by (rule resave_ok_same_trace)
  show ?thesis
  proof (cases x)
    case (Inl e)
    then show ?thesis using None res t1 by (simp add: upgrade_body_def resave_ok_same_trace)
  next
    case (Inr vf)
    obtain vr f where vf: "vf = (vr, f)" by force
    have "upgrade_body env s w = upgrade_from env s vr f w1"
      using None res Inr vf by (simp add: upgrade_body_def)
    then show ?thesis using resave_ok_seq[OF ok1 upgrade_from_ok] by simp
  qed
qed

lemma upgrade_result:
  assumes "build_context env = None" and "upgrade_body env s w = (e1, w1)"
  shows "upgrade env s w =
     ((case e1 of
         None \<Rightarrow> None
       | Some err \<Rightarrow>
           if is_BaseError (exn_class err)
           then Some (Exn UpgradeError (''Error during upgrade: '' @ exn_str err))
           else Some err), w1)"
  using assms by (cases e1) (simp_all add: upgrade_def)

subsection \<open>The errors before the first step\<close>

lemma upgrade_body_same_version:
  assumes "wallet_config env = None" and "resolve_from_version s w = (Inr (vr, f), w1)"
    and "f = ''v'' @ version env"
  shows "upgrade_body env s w =
     (Some (Exn UpgradeError (''Version '' @ f @
        '' to upgrade from and current version to upgrade to '' @ (''v'' @ version env) @
        '' are same.'')), w1)"
  using assms by (simp add: upgrade_body_def upgrade_from_def)

lemma upgrade_body_no_config:
  assumes "wallet_config env = None" and "resolve_from_version s w = (Inr (vr, f), w1)"
    and "f \<noteq> ''v'' @ version env" and "setting_config s = Some cfg" and "f \<notin> fst ` set cfg"
  shows "upgrade_body env s w =
     (Some (Exn UpgradeError (''No upgrade configuration found for '' @ f)), w1)"
  using assms by (simp add: upgrade_body_def upgrade_from_def)

lemma upgrade_wraps:
  assumes "build_context env = None" and "upgrade_body env s w = (Some (Exn UpgradeError m), w1)"
  shows "upgrade env s w = (Some (Exn UpgradeError (''Error during upgrade: '' @ m)), w1)"
  using assms by (simp add: upgrade_def)

lemma resolve_found:
  "find_record (storage w) RECORD_TYPE_ACAPY_VERSION = Inr r \<Longrightarrow>
     fst (resolve_from_version s w) = Inr (Some r, rec_value r)"
  by (simp add: resolve_from_version_def)

lemma resolve_missing:
  "version_records (storage w) = [] \<Longrightarrow> setting_from_version s = None \<Longrightarrow>
     resolve_from_version s w =
       (Inl (Exn UpgradeError
          ''ACA-Py version not found in storage and no --from-version specified.''), w)"
  by (simp add: resolve_from_version_def find_record_def version_records_def)

lemma upgrade_body_missing:
  "wallet_config env = None \<Longrightarrow> version_records (storage w) = [] \<Longrightarrow>
   setting_from_version s = None \<Longrightarrow>
     upgrade_body env s w =
       (Some (Exn UpgradeError
          ''ACA-Py version not found in storage and no --from-version specified.''), w)"
  by (simp add: upgrade_body_def resolve_missing)

subsection \<open>The setting of the version to upgrade from, when the store has one\<close>

lemma same_outcome_Pair [simp]:
  "same_outcome (e, w) (e', w') \<longleftrightarrow> e = e' \<and> same_effects w w'"
  by (simp add: same_outcome_def)

lemma same_outcomeE:
  assumes "same_outcome a b"
  obtains e w w' where "a = (e, w)" "b = (e, w')" "same_effects w w'"
  using assms by (cases a; cases b) (simp add: same_outcome_def)

lemma save_all_same:
  "same_effects w wp \<Longrightarrow> same_outcome (save_all c p rs w) (save_all c p rs wp)"
proof (induction rs arbitrary: w wp)
  case Nil
  then show ?case by simp
next
  case (Cons r rs)
  obtain e st where sv: "save c r (storage w) = (e, st)" by force
  have sv': "save c r (storage wp) = (e, st)" using sv Cons.prems by (simp add: same_effects_def)
  show ?case
  proof (cases e)
    case None
    have "same_effects (w\<lparr>trace := trace w @ [Save p r], storage := st\<rparr>)
            (wp\<lparr>trace := trace wp @ [Save p r], storage := st\<rparr>)"
      using Cons.prems by (simp add: same_effects_def)
    from Cons.IH[OF this] show ?thesis using sv sv' None by (simp add: Let_def)
  next
    case (Some a)
    then show ?thesis using sv sv' Cons.prems by (simp add: Let_def same_effects_def)
  qed
qed

lemma resave_path_same:
  assumes "same_effects w wp"
  shows "same_outcome (resave_path env p w) (resave_path env p wp)"
proof -
  define w1 where "w1 = w\<lparr>trace := trace w @ [LoadClass p]\<rparr>"
  define wp1 where "wp1 = wp\<lparr>trace := trace wp @ [LoadClass p]\<rparr>"
  have s1: "same_effects w1 wp1" using assms by (simp add: same_effects_def w1_def wp1_def)
  have st: "storage w1 = storage wp1" using s1 by (simp add: same_effects_def)
  show ?thesis
  proof (cases "load_class env p")
    case (Inl err)
    then show ?thesis using s1 by (simp add: resave_path_def Let_def w1_def wp1_def)
  next
    case (Inr c)
    show ?thesis
    proof (cases "query c (storage w1)")
      case (Inl e)
      then show ?thesis using Inr s1 st
        by (simp add: resave_path_def Let_def w1_def wp1_def)
    next
      case rs: (Inr rs)
      obtain e w2 wp2 where a: "save_all c p rs w1 = (e, w2)"
        and b: "save_all c p rs wp1 = (e, wp2)" and s2: "same_effects w2 wp2"
        using save_all_same[OF s1, of c p rs] by (rule same_outcomeE)
      have q: "query c (storage wp1) = Inr rs" using rs st by simp
      have r1: "resave_path env p w =
          (if \<not> is_BaseRecord c
           then (Some (Exn UpgradeError
                   (''Only BaseRecord can be resaved, found: '' @ cls_str c)), w1)
           else (case e of Some x \<Rightarrow> (Some x, w2)
                 | None \<Rightarrow> (None, w2\<lparr>stdout := stdout w2 @
                     [''All records of '' @ cls_str c @ '' successfully re-saved.'']\<rparr>)))"
        using Inr rs a unfolding resave_path_def Let_def w1_def[symmetric]
        by (simp split: option.splits)
      have r2: "resave_path env p wp =
          (if \<not> is_BaseRecord c
           then (Some (Exn UpgradeError
                   (''Only BaseRecord can be resaved, found: '' @ cls_str c)), wp1)
           else (case e of Some x \<Rightarrow> (Some x, wp2)
                 | None \<Rightarrow> (None, wp2\<lparr>stdout := stdout wp2 @
                     [''All records of '' @ cls_str c @ '' successfully re-saved.'']\<rparr>)))"
        using Inr q b unfolding resave_path_def Let_def wp1_def[symmetric]
        by (simp split: option.splits)
      show ?thesis unfolding r1 r2 using s1 s2
        by (simp add: same_effects_def split: option.splits)
    qed
  qed
qed

lemma resave_paths_same:
  "same_effects w wp \<Longrightarrow> same_outcome (resave_paths env ps w) (resave_paths env ps wp)"
proof (induction ps arbitrary: w wp)
  case Nil
  then show ?case by simp
next
  case (Cons p ps)
  obtain e w1 where a: "resave_path env p w = (e, w1)" by force
  obtain e' wp1 where b: "resave_path env p wp = (e', wp1)" by force
  have s: "e = e' \<and> same_effects w1 wp1" using resave_path_same[OF Cons.prems, of env p] a b by simp
  show ?case
  proof (cases e)
    case None
    then show ?thesis using a b s Cons.IH[of w1 wp1] by simp
  next
    case (Some x)
    then show ?thesis using a b s by simp
  qed
qed

lemma update_existing_same:
  "same_effects w wp \<Longrightarrow> same_outcome (update_existing f w) (update_existing f wp)"
  by (simp add: update_existing_def get_update_existing_func_CONFIG update_existing_records_def
      Let_def same_effects_def)

lemma upgrade_version_same:
  assumes "same_effects w wp"
  shows "same_outcome (upgrade_version env cfg f v w) (upgrade_version env cfg f v wp)"
proof (cases "map_of cfg v")
  case None
  then show ?thesis using assms by (simp add: upgrade_version_def)
next
  case (Some uc)
  define r1 where "r1 = (case key_resave_records uc of None \<Rightarrow> (None, w) | Some ps \<Rightarrow> resave_paths env ps w)"
  define r2 where "r2 = (case key_resave_records uc of None \<Rightarrow> (None, wp) | Some ps \<Rightarrow> resave_paths env ps wp)"
  have s: "same_outcome r1 r2"
    using assms by (auto simp: r1_def r2_def resave_paths_same split: option.splits)
  obtain e w1 where a: "r1 = (e, w1)" by force
  obtain e' wp1 where b: "r2 = (e', wp1)" by force
  have s1: "e = e'" "same_effects w1 wp1" using s a b by simp_all
  have u1: "upgrade_version env cfg f v w =
      (case e of Some x \<Rightarrow> (Some x, w1)
       | None \<Rightarrow> (case key_update_existing_records uc of None \<Rightarrow> (None, w1) | Some b \<Rightarrow> update_existing f w1))"
    using Some a by (simp add: upgrade_version_def r1_def split: option.splits)
  have u2: "upgrade_version env cfg f v wp =
      (case e of Some x \<Rightarrow> (Some x, wp1)
       | None \<Rightarrow> (case key_update_existing_records uc of None \<Rightarrow> (None, wp1) | Some b \<Rightarrow> update_existing f wp1))"
    using Some b s1 by (simp add: upgrade_version_def r2_def split: option.splits)
  show ?thesis unfolding u1 u2 using s1 update_existing_same[OF s1(2)]
    by (simp split: option.splits)
qed

lemma upgrade_versions_same:
  "same_effects w wp \<Longrightarrow>
     same_outcome (upgrade_versions env cfg f vs w) (upgrade_versions env cfg f vs wp)"
proof (induction vs arbitrary: w wp)
  case Nil
  then show ?case by simp
next
  case (Cons v vs)
  obtain e w1 where a: "upgrade_version env cfg f v w = (e, w1)" by force
  obtain e' wp1 where b: "upgrade_version env cfg f v wp = (e', wp1)" by force
  have s: "e = e' \<and> same_effects w1 wp1"
    using upgrade_version_same[OF Cons.prems, of env cfg f v] a b by simp
  show ?case
  proof (cases e)
    case None
    then show ?thesis using a b s Cons.IH[of w1 wp1] by simp
  next
    case (Some x)
    then show ?thesis using a b s by simp
  qed
qed

lemma store_version_same:
  "same_effects w wp \<Longrightarrow> same_outcome (store_version vr v w) (store_version vr v wp)"
  by (auto simp: store_version_def same_effects_def split: option.splits sum.splits)

lemma run_upgrade_same:
  assumes "same_effects w wp"
  shows "same_outcome (run_upgrade env cfg vr f w) (run_upgrade env cfg vr f wp)"
proof (cases "versions_to_run cfg f")
  case (Inl e)
  then show ?thesis using assms by (simp add: run_upgrade_def)
next
  case (Inr vs)
  obtain e w1 where a: "upgrade_versions env cfg f vs w = (e, w1)" by force
  obtain e' wp1 where b: "upgrade_versions env cfg f vs wp = (e', wp1)" by force
  have s: "e = e'" "same_effects w1 wp1"
    using upgrade_versions_same[OF assms, of env cfg f vs] a b by simp_all
  show ?thesis
  proof (cases e)
    case (Some x)
    then show ?thesis using Inr a b s by (simp add: run_upgrade_def)
  next
    case None
    obtain e2 w2 wp2 where c: "store_version vr (''v'' @ version env) w1 = (e2, w2)"
      and d: "store_version vr (''v'' @ version env) wp1 = (e2, wp2)"
      and s2: "same_effects w2 wp2"
      using store_version_same[OF s(2), of vr "''v'' @ version env"] by (rule same_outcomeE)
    have r1: "run_upgrade env cfg vr f w =
        (case e2 of Some x \<Rightarrow> (Some x, w2) | None \<Rightarrow> (profile_close env, w2))"
      using Inr a None c by (simp add: run_upgrade_def split: option.splits)
    have r2: "run_upgrade env cfg vr f wp =
        (case e2 of Some x \<Rightarrow> (Some x, wp2) | None \<Rightarrow> (profile_close env, wp2))"
      using Inr b s(1) None d by (simp add: run_upgrade_def split: option.splits)
    show ?thesis unfolding r1 r2 using s2 by (simp split: option.splits)
  qed
qed

lemma upgrade_from_same:
  "same_effects w wp \<Longrightarrow>
     same_outcome (upgrade_from env s vr f w) (upgrade_from env s vr f wp)"
  by (auto simp: upgrade_from_def run_upgrade_same split: option.splits)

lemma upgrade_from_setting:
  "upgrade_from env (s\<lparr>setting_from_version := x\<rparr>) vr f w = upgrade_from env s vr f w"
  by (simp add: upgrade_from_def)

lemma resolve_found_full:
  "find_record (storage w) RECORD_TYPE_ACAPY_VERSION = Inr r \<Longrightarrow>
     \<exists>w1. resolve_from_version s w = (Inr (Some r, rec_value r), w1) \<and> same_effects w w1"
  by (auto simp: resolve_from_version_def same_effects_def split: option.splits)

lemma upgrade_body_setting:
  assumes "find_record (storage w) RECORD_TYPE_ACAPY_VERSION = Inr r"
  shows "same_outcome (upgrade_body env (s\<lparr>setting_from_version := x\<rparr>) w) (upgrade_body env s w)"
proof (cases "wallet_config env")
  case (Some e)
  then show ?thesis by (simp add: upgrade_body_def same_effects_def)
next
  case None
  obtain w1 where a: "resolve_from_version (s\<lparr>setting_from_version := x\<rparr>) w = (Inr (Some r, rec_value r), w1)"
    and s1: "same_effects w w1" using resolve_found_full[OF assms] by blast
  obtain w2 where b: "resolve_from_version s w = (Inr (Some r, rec_value r), w2)"
    and s2: "same_effects w w2" using resolve_found_full[OF assms] by blast
  have "same_effects w1 w2" using s1 s2 by (simp add: same_effects_def)
  from upgrade_from_same[OF this, of env s "Some r" "rec_value r"]
  show ?thesis using None a b by (simp add: upgrade_body_def upgrade_from_setting)
qed

lemma upgrade_setting:
  assumes "find_record (storage w) RECORD_TYPE_ACAPY_VERSION = Inr r"
  shows "same_outcome (upgrade env (s\<lparr>setting_from_version := x\<rparr>) w) (upgrade env s w)"
proof (cases "build_context env")
  case (Some e)
  then show ?thesis by (simp add: upgrade_def same_effects_def)
next
  case None
  obtain e1 w1 where a: "upgrade_body env (s\<lparr>setting_from_version := x\<rparr>) w = (e1, w1)" by force
  obtain e2 w2 where b: "upgrade_body env s w = (e2, w2)" by force
  have "same_outcome (upgrade_body env (s\<lparr>setting_from_version := x\<rparr>) w) (upgrade_body env s w)"
    using assms by (rule upgrade_body_setting)
  then have "e1 = e2 \<and> same_effects w1 w2" using a b by simp
  then show ?thesis
    using upgrade_result[OF None a] upgrade_result[OF None b] by simp
qed

subsection \<open>The slice of the versions\<close>

text \<open>
  With the version to upgrade from at position \<open>i\<close> of the sorted versions, the loop runs
  the last version only when \<open>i = 0\<close>, and the versions from position \<open>i - 1\<close> on otherwise.
\<close>

lemma py_slice_from_before:
  "py_slice_from xs (int i - 1) =
     (if i = 0 then drop (length xs - 1) xs else drop (i - 1) xs)"
  by (auto simp: py_slice_from_def nat_diff_distrib' max_def)

lemma versions_to_run_slice:
  assumes "sorted_versions (map fst cfg) = Inr vs" and "py_index vs f = Some i"
  shows "versions_to_run cfg f =
     Inr (if i = 0 then drop (length vs - 1) vs else drop (i - 1) vs)"
  using assms by (simp add: versions_to_run_def py_slice_from_before)

subsection \<open>Evaluation on the concrete inputs\<close>

lemmas upgrade_eval =
  upgrade_def upgrade_body_def upgrade_from_def run_upgrade_def resolve_from_version_def
  store_version_def find_record_def add_record_def update_record_def same_record_def
  fresh_id_def RECORD_TYPE_ACAPY_VERSION_def
  versions_to_run_def sorted_versions_def version_key_def py_int_def py_strip_def
  py_isspace_def is_digit_def digit_val_def py_slice_from_def
  upgrade_version_def update_existing_def resave_path_def
  get_update_existing_func_def setup_config_def CONFIG_v7_3_def update_existing_records_def
  example_class_def example_other_class_def example_env_def example_store_def
  example_world_def no_steps_def example_config_def resave_config_def rejecting_config_def
  Let_def



section \<open>The claims about the upgrade command\<close>

text \<open>
  C1.  The claim: for every version to upgrade from that is among the keys of
  \<open>upgrade.config\<close>, \<open>upgrade\<close> runs the steps of exactly the configured versions at or after
  it, in ascending order.  The code takes the slice from one position before the version's
  index (line 107), and Python reads the start \<open>-1\<close> from the end of the list.
  With the versions v0.7.0, v0.7.1 and v0.7.2 configured: from v0.7.0 the loop runs v0.7.2
  only, so the call returns and stores the new version without the re-save of v0.7.0 and
  v0.7.1; from v0.7.2 the loop runs v0.7.1 too and re-saves its records.
\<close>

theorem upgrade_versions_off_by_one:
  "versions_to_run resave_config ''v0.7.0'' = Inr [''v0.7.2''] \<and>
   upgrade example_env \<lparr>setting_from_version = None, setting_config = Some resave_config\<rparr>
     (example_world (example_store ''v0.7.0'')) =
     (None, \<lparr>storage = example_store ''v0.7.3'', trace = [], stdout = []\<rparr>) \<and>
   versions_to_run resave_config ''v0.7.2'' = Inr [''v0.7.1'', ''v0.7.2''] \<and>
   upgrade example_env \<lparr>setting_from_version = None, setting_config = Some resave_config\<rparr>
     (example_world (example_store ''v0.7.2'')) =
     (None, \<lparr>storage = example_store ''v0.7.3'',
        trace = [LoadClass ''models.ConnRecord'', Save ''models.ConnRecord'' 1,
                 Save ''models.ConnRecord'' 2],
        stdout = [''All records of ConnRecord successfully re-saved.'']\<rparr>)"
  by (simp add: upgrade_eval)

text \<open>
  C2.  The claim: the callable a step calls is the one registered for the step's own
  version, and \<open>upgrade\<close> raises \<open>UpgradeError\<close> when none is registered for it.  The code
  looks the callable up under the version the upgrade starts from (line 141).  Upgrading
  from v0.7.1, the step of v0.7.2 asks for the update of existing records; a callable is
  registered for v0.7.2, and the call raises because none is registered for v0.7.1.
\<close>

theorem upgrade_update_existing_wrong_version:
  "get_update_existing_func (setup_config CONFIG_v7_3) ''v0.7.2'' = Some update_existing_records \<and>
   upgrade example_env \<lparr>setting_from_version = None, setting_config = Some example_config\<rparr>
     (example_world (example_store ''v0.7.1'')) =
     (Some (Exn UpgradeError
        ''Error during upgrade: No update_existing_records function specified for v0.7.1''),
      \<lparr>storage = example_store ''v0.7.1'',
        trace = [LoadClass ''models.ConnRecord'', Save ''models.ConnRecord'' 1,
                 Save ''models.ConnRecord'' 2],
        stdout = [''All records of ConnRecord successfully re-saved.'']\<rparr>)"
  by (simp add: upgrade_eval)



text \<open>
  C8.  When the store has a version record, the version to upgrade from is its value,
  whatever the setting \<open>upgrade.from_version\<close> is, and \<open>upgrade\<close> raises the same, and
  leaves the same store and the same trace, under any value of the setting (only the
  printed notice differs).  When the store has none and the setting is absent, \<open>upgrade\<close> raises \<open>UpgradeError\<close> and the world is as before the call: no step
  was run.  (The context and the root profile are taken to open.)
\<close>

theorem upgrade_from_version_resolution:
  "(find_record (storage w) RECORD_TYPE_ACAPY_VERSION = Inr r \<longrightarrow>
      fst (resolve_from_version s w) = Inr (Some r, rec_value r) \<and>
      same_outcome (upgrade env (s\<lparr>setting_from_version := x\<rparr>) w) (upgrade env s w)) \<and>
   (version_records (storage w) = [] \<and> setting_from_version s = None \<and>
    build_context env = None \<and> wallet_config env = None \<longrightarrow>
      upgrade env s w =
        (Some (Exn UpgradeError
           ''Error during upgrade: ACA-Py version not found in storage and no --from-version specified.''), w))"
proof (intro conjI impI)
  assume "find_record (storage w) RECORD_TYPE_ACAPY_VERSION = Inr r"
  then show "fst (resolve_from_version s w) = Inr (Some r, rec_value r)" by (rule resolve_found)
next
  assume "find_record (storage w) RECORD_TYPE_ACAPY_VERSION = Inr r"
  then show "same_outcome (upgrade env (s\<lparr>setting_from_version := x\<rparr>) w) (upgrade env s w)"
    by (rule upgrade_setting)
next
  assume a: "version_records (storage w) = [] \<and> setting_from_version s = None \<and>
    build_context env = None \<and> wallet_config env = None"
  then have "upgrade_body env s w =
       (Some (Exn UpgradeError
          ''ACA-Py version not found in storage and no --from-version specified.''), w)"
    using upgrade_body_missing by blast
  then show "upgrade env s w =
        (Some (Exn UpgradeError
           ''Error during upgrade: ACA-Py version not found in storage and no --from-version specified.''), w)"
    using a upgrade_wraps[of env s w] by simp
qed

theorem upgrade_from_version_resolution_witness:
  "find_record (example_store ''v0.7.2'') RECORD_TYPE_ACAPY_VERSION =
     Inr \<lparr>rec_type = RECORD_TYPE_ACAPY_VERSION, rec_value = ''v0.7.2'', rec_tags = [], rec_id = 5\<rparr> \<and>
   fst (resolve_from_version
          \<lparr>setting_from_version = Some ''v0.7.0'', setting_config = Some example_config\<rparr>
          (example_world (example_store ''v0.7.2''))) =
     Inr (Some \<lparr>rec_type = RECORD_TYPE_ACAPY_VERSION, rec_value = ''v0.7.2'', rec_tags = [], rec_id = 5\<rparr>,
          ''v0.7.2'') \<and>
   same_outcome
     (upgrade example_env
        \<lparr>setting_from_version = Some ''v0.7.0'', setting_config = Some example_config\<rparr>
        (example_world (example_store ''v0.7.2'')))
     (upgrade example_env
        \<lparr>setting_from_version = None, setting_config = Some example_config\<rparr>
        (example_world (example_store ''v0.7.2''))) \<and>
   version_records [] = [] \<and>
   upgrade example_env \<lparr>setting_from_version = None, setting_config = Some example_config\<rparr>
     (example_world []) =
     (Some (Exn UpgradeError
        ''Error during upgrade: ACA-Py version not found in storage and no --from-version specified.''),
      example_world [])"
proof -
  let ?s = "\<lparr>setting_from_version = None, setting_config = Some example_config\<rparr>"
  have f: "find_record (storage (example_world (example_store ''v0.7.2''))) RECORD_TYPE_ACAPY_VERSION =
     Inr \<lparr>rec_type = RECORD_TYPE_ACAPY_VERSION, rec_value = ''v0.7.2'', rec_tags = [], rec_id = 5\<rparr>"
    by (simp add: find_record_def example_store_def example_world_def RECORD_TYPE_ACAPY_VERSION_def)
  have n: "version_records (storage (example_world [])) = [] \<and>
      setting_from_version ?s = None \<and>
      build_context example_env = None \<and> wallet_config example_env = None"
    by (simp add: version_records_def example_world_def example_env_def)
  have a: "fst (resolve_from_version (?s\<lparr>setting_from_version := Some ''v0.7.0''\<rparr>)
          (example_world (example_store ''v0.7.2''))) =
     Inr (Some \<lparr>rec_type = RECORD_TYPE_ACAPY_VERSION, rec_value = ''v0.7.2'', rec_tags = [], rec_id = 5\<rparr>,
          ''v0.7.2'') \<and>
     same_outcome
       (upgrade example_env (?s\<lparr>setting_from_version := Some ''v0.7.0''\<rparr>)
          (example_world (example_store ''v0.7.2'')))
       (upgrade example_env ?s (example_world (example_store ''v0.7.2'')))"
    using upgrade_from_version_resolution[where w = "example_world (example_store ''v0.7.2'')"
        and s = "?s\<lparr>setting_from_version := Some ''v0.7.0''\<rparr>"]
      upgrade_from_version_resolution[where w = "example_world (example_store ''v0.7.2'')"
        and s = ?s and env = example_env and x = "Some ''v0.7.0''"] f
    by simp
  have b: "upgrade example_env ?s (example_world []) =
     (Some (Exn UpgradeError
        ''Error during upgrade: ACA-Py version not found in storage and no --from-version specified.''),
      example_world [])"
    using upgrade_from_version_resolution[where w = "example_world []" and s = ?s
        and env = example_env] n
    by blast
  show ?thesis using f a b by (simp add: example_world_def version_records_def)
qed

text \<open>
  C9.  When the version to upgrade from is the current version, or \<open>upgrade.config\<close> has no
  entry for it, \<open>upgrade\<close> raises \<open>UpgradeError\<close>; the store and the trace are as before
  the call, so no record was saved and the version record is unchanged.  (The context and
  the root profile are taken to open.)
\<close>

theorem upgrade_rejects_before_migration:
  assumes "build_context env = None" and "wallet_config env = None"
    and "resolve_from_version s w = (Inr (vr, f), w1)"
    and "f = ''v'' @ version env \<or> (\<exists>cfg. setting_config s = Some cfg \<and> f \<notin> fst ` set cfg)"
  shows "\<exists>msg. upgrade env s w = (Some (Exn UpgradeError msg), w1) \<and>
           storage w1 = storage w \<and> trace w1 = trace w"
proof -
  have un: "storage w1 = storage w \<and> trace w1 = trace w"
    using resolve_from_version_unchanged[OF assms(3)] .
  have "\<exists>m. upgrade_body env s w = (Some (Exn UpgradeError m), w1)"
  proof (cases "f = ''v'' @ version env")
    case True
    then show ?thesis using upgrade_body_same_version[OF assms(2,3)] by blast
  next
    case False
    then obtain cfg where "setting_config s = Some cfg" "f \<notin> fst ` set cfg"
      using assms(4) by blast
    then show ?thesis using upgrade_body_no_config[OF assms(2,3) False] by blast
  qed
  then obtain m where "upgrade_body env s w = (Some (Exn UpgradeError m), w1)" by blast
  from upgrade_wraps[OF assms(1) this] un show ?thesis by blast
qed

theorem upgrade_rejects_before_migration_witness:
  "upgrade example_env \<lparr>setting_from_version = None, setting_config = Some example_config\<rparr>
     (example_world (example_store ''v0.7.3'')) =
     (Some (Exn UpgradeError
        ''Error during upgrade: Version v0.7.3 to upgrade from and current version to upgrade to v0.7.3 are same.''),
      example_world (example_store ''v0.7.3'')) \<and>
   upgrade example_env \<lparr>setting_from_version = None, setting_config = Some example_config\<rparr>
     (example_world (example_store ''v0.6.0'')) =
     (Some (Exn UpgradeError ''Error during upgrade: No upgrade configuration found for v0.6.0''),
      example_world (example_store ''v0.6.0''))"
proof -
  let ?s = "\<lparr>setting_from_version = None, setting_config = Some example_config\<rparr>"
  have e: "build_context example_env = None" "wallet_config example_env = None"
    by (simp_all add: example_env_def)
  have r: "resolve_from_version ?s (example_world (example_store v)) =
      (Inr (Some \<lparr>rec_type = RECORD_TYPE_ACAPY_VERSION, rec_value = v, rec_tags = [], rec_id = 5\<rparr>, v),
       example_world (example_store v))" for v
    by (simp add: resolve_from_version_def find_record_def example_store_def example_world_def
        RECORD_TYPE_ACAPY_VERSION_def)
  have h1: "''v0.7.3'' = ''v'' @ version example_env \<or>
      (\<exists>cfg. setting_config ?s = Some cfg \<and> ''v0.7.3'' \<notin> fst ` set cfg)"
    by (simp add: example_env_def)
  have h2: "''v0.6.0'' = ''v'' @ version example_env \<or>
      (\<exists>cfg. setting_config ?s = Some cfg \<and> ''v0.6.0'' \<notin> fst ` set cfg)"
    by (simp add: example_env_def example_config_def)
  from upgrade_rejects_before_migration[OF e r h1] upgrade_rejects_before_migration[OF e r h2]
  show ?thesis
    by (auto simp: upgrade_eval)
qed

text \<open>
  C10.  In every call of \<open>upgrade\<close>, every record saved was saved through a path whose class
  loaded and is a subclass of \<open>BaseRecord\<close>; and when the call loaded a path whose class
  cannot be loaded or is not a subclass of \<open>BaseRecord\<close>, the call raised \<open>UpgradeError\<close>
  and saved no record through that path.
\<close>

theorem upgrade_resaves_only_BaseRecord:
  assumes "upgrade env s w = (e, w')"
  shows "\<exists>evs. trace w' = trace w @ evs \<and>
           (\<forall>p r. Save p r \<in> set evs \<longrightarrow> class_accepted env p) \<and>
           (\<forall>p. LoadClass p \<in> set evs \<longrightarrow> class_rejected env p \<longrightarrow>
              (\<exists>msg. e = Some (Exn UpgradeError msg)) \<and> (\<forall>r. Save p r \<notin> set evs))"
proof (cases "build_context env")
  case (Some a)
  then have "trace w' = trace w" using assms by (simp add: upgrade_def)
  then show ?thesis by simp
next
  case None
  obtain e1 w1 where body: "upgrade_body env s w = (e1, w1)" by force
  note res = upgrade_result[OF None body]
  have w1: "w' = w1" using assms res by simp
  obtain evs where evs: "trace w1 = trace w @ evs"
      and sv: "\<forall>p r. Save p r \<in> set evs \<longrightarrow> class_accepted env p"
      and ld: "\<forall>p. LoadClass p \<in> set evs \<longrightarrow> class_rejected env p \<longrightarrow>
           (\<exists>err. e1 = Some err \<and> is_BaseError (exn_class err))"
    using upgrade_body_ok[of env w s] body unfolding resave_ok_def by auto
  have wrap: "\<exists>msg. e = Some (Exn UpgradeError msg)"
    if "e1 = Some err" "is_BaseError (exn_class err)" for err
  proof -
    have "(e, w') = (Some (Exn UpgradeError (''Error during upgrade: '' @ exn_str err)), w1)"
      using assms res that by simp
    then have "e = Some (Exn UpgradeError (''Error during upgrade: '' @ exn_str err))"
      by (rule Pair_inject)
    then show ?thesis by (rule exI)
  qed
  have rej: "\<not> class_accepted env p" if "class_rejected env p" for p
    using that by (cases "load_class env p") (simp_all add: class_rejected_def class_accepted_def)
  have "(\<exists>msg. e = Some (Exn UpgradeError msg)) \<and> (\<forall>r. Save p r \<notin> set evs)"
    if "LoadClass p \<in> set evs" "class_rejected env p" for p
  proof
    from ld that obtain err where "e1 = Some err" "is_BaseError (exn_class err)" by blast
    then show "\<exists>msg. e = Some (Exn UpgradeError msg)" by (rule wrap)
    show "\<forall>r. Save p r \<notin> set evs" using sv rej[OF that(2)] by blast
  qed
  then have "\<forall>p. LoadClass p \<in> set evs \<longrightarrow> class_rejected env p \<longrightarrow>
              (\<exists>msg. e = Some (Exn UpgradeError msg)) \<and> (\<forall>r. Save p r \<notin> set evs)"
    by blast
  then show ?thesis using evs sv w1 by blast
qed

theorem upgrade_resaves_only_BaseRecord_witness:
  "upgrade example_env \<lparr>setting_from_version = None, setting_config = Some rejecting_config\<rparr>
     (example_world (example_store ''v0.7.2'')) =
     (Some (Exn UpgradeError ''Error during upgrade: Only BaseRecord can be resaved, found: dict''),
      \<lparr>storage = example_store ''v0.7.2'',
        trace = [LoadClass ''models.ConnRecord'', Save ''models.ConnRecord'' 1,
                 Save ''models.ConnRecord'' 2, LoadClass ''builtins.dict''],
        stdout = [''All records of ConnRecord successfully re-saved.'']\<rparr>) \<and>
   class_rejected example_env ''builtins.dict'' \<and>
   class_accepted example_env ''models.ConnRecord''"
proof -
  have run: "upgrade example_env \<lparr>setting_from_version = None, setting_config = Some rejecting_config\<rparr>
     (example_world (example_store ''v0.7.2'')) =
     (Some (Exn UpgradeError ''Error during upgrade: Only BaseRecord can be resaved, found: dict''),
      \<lparr>storage = example_store ''v0.7.2'',
        trace = [LoadClass ''models.ConnRecord'', Save ''models.ConnRecord'' 1,
                 Save ''models.ConnRecord'' 2, LoadClass ''builtins.dict''],
        stdout = [''All records of ConnRecord successfully re-saved.'']\<rparr>)"
    by (simp add: upgrade_eval)
  from upgrade_resaves_only_BaseRecord[OF run] show ?thesis
    using run by (simp add: class_rejected_def class_accepted_def example_env_def
        example_class_def example_other_class_def)
qed

section \<open>Properties of sign and verify\<close>

subsection \<open>The outcomes of the proofs of a document\<close>

lemma collect_map_Inr: "collect (map Inr rs) = Inr rs"
  by (induction rs) simp_all

lemma collect_Inr: "collect xs = Inr rs \<Longrightarrow> xs = map Inr rs"
proof (induction xs arbitrary: rs)
  case Nil
  then show ?case by simp
next
  case (Cons x xs)
  then obtain r rs' where "x = Inr r" "collect xs = Inr rs'" "rs = r # rs'"
    by (auto split: sum.splits)
  then show ?case using Cons.IH by simp
qed

lemma collect_Inr_iff: "collect xs = Inr rs \<longleftrightarrow> xs = map Inr rs"
  using collect_Inr collect_map_Inr by blast

lemma collect_Inl: "collect xs = Inl e \<Longrightarrow> Inl e \<in> set xs"
  by (induction xs) (auto split: sum.splits)

lemma collect_all_Inr:
  "(\<And>x. x \<in> set xs \<Longrightarrow> \<exists>r. x = Inr r) \<Longrightarrow> \<exists>rs. collect xs = Inr rs"
proof (induction xs)
  case Nil
  then show ?case by simp
next
  case (Cons x xs)
  then obtain r where "x = Inr r" by auto
  moreover obtain rs where "collect xs = Inr rs" using Cons by auto
  ultimately show ?case by simp
qed

lemma verify_one_raises:
  "verify_one suites pu loader d p = Inl e \<Longrightarrow> infrastructure_failure e"
  by (auto simp: verify_one_def Let_def split: option.splits sum.splits if_splits)

lemma verify_each_raises:
  assumes "verify_each suites pu loader d = Inl e"
  shows "infrastructure_failure e"
proof -
  from collect_Inl[OF assms[unfolded verify_each_def]]
  obtain i where "verify_one suites pu loader (without_proof d i) (proofs d ! i) = Inl e"
    by auto
  then show ?thesis by (rule verify_one_raises)
qed

lemma verify_each_results:
  assumes "verify_each suites pu loader d = Inr rs"
  shows "length rs = length (proofs d) \<and>
         (\<forall>i < length (proofs d).
            verify_one suites pu loader (without_proof d i) (proofs d ! i) = Inr (rs ! i))"
proof -
  have m: "map (\<lambda>i. verify_one suites pu loader (without_proof d i) (proofs d ! i))
             [0..<length (proofs d)] = map Inr rs"
    using assms by (simp add: verify_each_def collect_Inr_iff)
  then have len: "length rs = length (proofs d)"
    by (metis length_map length_upt minus_nat.diff_0)
  have "verify_one suites pu loader (without_proof d i) (proofs d ! i) = Inr (rs ! i)"
    if "i < length (proofs d)" for i
  proof -
    have "map (\<lambda>i. verify_one suites pu loader (without_proof d i) (proofs d ! i))
             [0..<length (proofs d)] ! i = map Inr rs ! i"
      using m by simp
    then show ?thesis using that len by simp
  qed
  then show ?thesis using len by blast
qed

lemma verify_one_fails:
  assumes "proof_fails suites pu loader d i"
    and "verify_one suites pu loader (without_proof d i) (proofs d ! i) = Inr r"
  shows "\<not> proof_verified r"
  using assms
  by (auto simp: proof_fails_def verify_one_def verify_proof_def Let_def
      split: option.splits sum.splits if_splits)

lemma verify_one_returns:
  assumes "case find (\<lambda>s. signature_type s = proof_type p) suites of
             None \<Rightarrow> True
           | Some s \<Rightarrow> resolve_method loader (verificationMethod p) \<noteq> None \<and>
                       canonicalize s d (proof_options.truncate p) \<noteq> None"
  shows "\<exists>r. verify_one suites pu loader d p = Inr r"
  using assms
  by (auto simp: verify_one_def verify_proof_def verify_data_def Let_def
      split: option.splits sum.splits if_splits)

lemma verify_each_returns:
  assumes "infrastructure_ok suites loader d"
  shows "\<exists>rs. verify_each suites pu loader d = Inr rs"
  unfolding verify_each_def
proof (rule collect_all_Inr)
  fix x
  assume "x \<in> set (map (\<lambda>i. verify_one suites pu loader (without_proof d i) (proofs d ! i))
                      [0..<length (proofs d)])"
  then obtain i where i: "i < length (proofs d)"
    and x: "x = verify_one suites pu loader (without_proof d i) (proofs d ! i)" by auto
  have "case find (\<lambda>s. signature_type s = proof_type (proofs d ! i)) suites of
             None \<Rightarrow> True
           | Some s \<Rightarrow> resolve_method loader (verificationMethod (proofs d ! i)) \<noteq> None \<and>
                       canonicalize s (without_proof d i) (proof_options.truncate (proofs d ! i)) \<noteq> None"
    using assms i by (simp add: infrastructure_ok_def list_all_iff)
  from verify_one_returns[OF this] show "\<exists>r. x = Inr r" using x by simp
qed

subsection \<open>A proof made by sign\<close>

lemma filter_other_types:
  "list_all (\<lambda>p. proof_type p = t) ps \<Longrightarrow> filter (\<lambda>p. proof_type p \<noteq> t) ps = []"
  by (induction ps) auto

lemma create_proof_Inr:
  assumes "create_proof s d opts kp = Inr p"
  obtains h where "verify_data s d opts = Some h"
    "p = proof_options.extend opts (ld_proof.fields (raw_sign kp h))"
    "key_type_constraint s (key_type kp)" "can_sign kp"
  using assms by (auto simp: create_proof_def split: if_splits option.splits)

lemma truncate_extend:
  "proof_options.truncate (proof_options.extend opts (ld_proof.fields sg)) = opts"
  by (simp add: proof_options.truncate_def proof_options.extend_def ld_proof.fields_def)

lemma extend_fields:
  "proof_type (proof_options.extend opts (ld_proof.fields sg)) = proof_type opts"
  "verificationMethod (proof_options.extend opts (ld_proof.fields sg)) = verificationMethod opts"
  "proofPurpose (proof_options.extend opts (ld_proof.fields sg)) = proofPurpose opts"
  "challenge (proof_options.extend opts (ld_proof.fields sg)) = challenge opts"
  "domain_name (proof_options.extend opts (ld_proof.fields sg)) = domain_name opts"
  "signatureValue (proof_options.extend opts (ld_proof.fields sg)) = sg"
  by (simp_all add: proof_options.extend_def ld_proof.fields_def)

lemma validate_built:
  "validate pu (proof_options.extend (build_proof_options pu now m ty) (ld_proof.fields sg))"
  by (simp add: validate_def extend_fields build_proof_options_def)

lemma verify_single:
  assumes "proofs d = [p]"
    and "verify_one suites pu loader (d\<lparr>proofs := []\<rparr>) p = Inr e"
  shows "verify d suites pu loader = Inr \<lparr>verified = proof_verified e, results = [e]\<rparr>"
  using assms by (simp add: verify_def verify_each_def without_proof_def)

text \<open>
  A document whose proofs, if it has any, are of the suite's type: when \<open>sign\<close> returns
  the signed document, the loader resolves the verification method of the new proof to a
  key pair of the suite's key type, and that key pair accepts what the signing key pair
  signs, \<open>verify\<close> of the signed document against the suite and the purpose returns a
  result with \<open>verified = true\<close>.
\<close>

lemma sign_verify_round_trip:
  assumes "sign d s pu kp method now = Inr d'"
    and "list_all (\<lambda>p. proof_type p = signature_type s) (proofs d)"
    and "resolve_method loader
           (case method of Some v \<Rightarrow> v | None \<Rightarrow> public_verification_method kp) = Some kp'"
    and "key_type_constraint s (key_type kp')"
    and "\<forall>h. raw_verify kp' h (raw_sign kp h)"
  shows "\<exists>r. verify d' [s] pu loader = Inr r \<and> verified r"
proof -
  define m where "m = (case method of Some v \<Rightarrow> v | None \<Rightarrow> public_verification_method kp)"
  define opts where "opts = build_proof_options pu now m (signature_type s)"
  define d1 where "d1 = d\<lparr>proofs := []\<rparr>"
  have f: "filter (\<lambda>p. proof_type p \<noteq> signature_type s) (proofs d) = []"
    using assms(2) by (rule filter_other_types)
  obtain p where cp: "create_proof s d1 opts kp = Inr p" and d': "d' = d1\<lparr>proofs := [p]\<rparr>"
    using assms(1) f unfolding sign_def Let_def m_def[symmetric] opts_def[symmetric]
    by (auto simp: d1_def split: sum.splits)
  from cp obtain h where h: "verify_data s d1 opts = Some h"
    and p: "p = proof_options.extend opts (ld_proof.fields (raw_sign kp h))"
    by (rule create_proof_Inr)
  have ty: "proof_type p = signature_type s" and vm: "verificationMethod p = m"
    by (simp_all add: p extend_fields opts_def build_proof_options_def)
  have vp: "verify_proof s p d1 kp' = Inr True"
    using assms(4,5) h by (simp add: verify_proof_def p truncate_extend extend_fields)
  have val: "validate pu p" unfolding p opts_def by (rule validate_built)
  have one: "verify_one [s] pu loader d1 p =
      Inr \<lparr>result_suite = proof_type p, result_method = verificationMethod p,
           proof_verified = True, proof_error = None\<rparr>"
    using ty vm assms(3) vp val by (simp add: verify_one_def m_def)
  have "proofs d' = [p]" "d'\<lparr>proofs := []\<rparr> = d1" by (simp_all add: d' d1_def)
  from verify_single[OF this(1)] one this(2) show ?thesis by simp
qed

subsection \<open>A proof that verified\<close>

lemma verify_one_verified:
  assumes "verify_one [s] pu loader dd p = Inr e" and "proof_verified e"
  obtains kp h where "signature_type s = proof_type p"
    "resolve_method loader (verificationMethod p) = Some kp"
    "key_type_constraint s (key_type kp)"
    "verify_data s dd (proof_options.truncate p) = Some h"
    "raw_verify kp h (signatureValue p)"
  using assms
  by (auto simp: verify_one_def verify_proof_def Let_def
      split: option.splits sum.splits if_splits)

lemma verify_one_mismatch:
  assumes "signature_type s = proof_type p"
    and "resolve_method loader (verificationMethod p) = Some kp"
    and "key_type_constraint s (key_type kp)"
    and "verify_data s dd (proof_options.truncate p) = Some h"
    and "\<not> raw_verify kp h (signatureValue p)"
  shows "verify_one [s] pu loader dd p =
     Inr \<lparr>result_suite = proof_type p, result_method = verificationMethod p,
          proof_verified = False, proof_error = Some SignatureMismatchError\<rparr>"
  using assms by (simp add: verify_one_def verify_proof_def)

lemma verify_verified:
  assumes "verify d suites pu loader = Inr r" and "verified r"
  obtains rs where "proofs d \<noteq> []" "verify_each suites pu loader d = Inr rs"
    "list_all proof_verified rs"
  using assms by (auto simp: verify_def split: if_splits sum.splits)

lemma canonical_changeD:
  assumes "canonical_change s d c" and "i < length (proofs d)"
  shows "\<exists>h h'. verify_data s (without_proof d i) (proof_options.truncate (proofs d ! i)) = Some h \<and>
           verify_data s (without_proof (d\<lparr>content := c\<rparr>) i)
             (proof_options.truncate (proofs d ! i)) = Some h' \<and> h \<noteq> h'"
proof -
  let ?a = "verify_data s (without_proof d i) (proof_options.truncate (proofs d ! i))"
  let ?b = "verify_data s (without_proof (d\<lparr>content := c\<rparr>) i)
             (proof_options.truncate (proofs d ! i))"
  have "case (?a, ?b) of (Some h, Some h') \<Rightarrow> h \<noteq> h' | _ \<Rightarrow> False"
    using assms by (simp add: canonical_change_def list_all_iff)
  then show ?thesis by (cases ?a; cases ?b) simp_all
qed

subsection \<open>Evaluation of sign and verify on the concrete inputs\<close>

lemmas ld_eval =
  sign_def verify_def verify_each_def verify_one_def verify_proof_def create_proof_def
  verify_data_def build_proof_options_def validate_def without_proof_def
  proof_options.extend_def proof_options.truncate_def ld_proof.fields_def
  example_render_def example_suite_def example_key_def example_loader_def assertion_def
  example_document_def example_proof_def unresolved_proof_def Let_def

lemma example_sign:
  "sign example_document example_suite assertion example_key None ''2022'' =
     Inr (example_document\<lparr>proofs := [example_proof]\<rparr>)"
  by (simp add: ld_eval)

section \<open>The claims about sign and verify\<close>

text \<open>
  C5.  For every signed document, that is every document that \<open>verify\<close> finds verified
  against the suite and the purpose: after a change of its content outside the proof
  block that takes part in the canonicalization (\<open>canonical_change\<close>), \<open>verify\<close> against the
  same suite returns a result with \<open>verified = false\<close>.  The signature scheme is idealised:
  a key pair accepts a signature value for one digest only (\<open>exact_signatures\<close>).
\<close>

theorem tampered_content_not_verified:
  assumes "verify d [s] pu loader = Inr r" and "verified r"
    and "canonical_change s d c"
    and "exact_signatures loader d"
  shows "\<exists>r'. verify (d\<lparr>content := c\<rparr>) [s] pu loader = Inr r' \<and> \<not> verified r'"
proof -
  define d2 where "d2 = d\<lparr>content := c\<rparr>"
  define entry where "entry = (\<lambda>i.
      \<lparr>result_suite = proof_type (proofs d ! i), result_method = verificationMethod (proofs d ! i),
       proof_verified = False, proof_error = Some SignatureMismatchError\<rparr>)"
  from assms(1,2) obtain rs where ne: "proofs d \<noteq> []"
    and rs: "verify_each [s] pu loader d = Inr rs" and all: "list_all proof_verified rs"
    by (rule verify_verified)
  note res = verify_each_results[OF rs]
  have p2: "proofs d2 = proofs d" by (simp add: d2_def)
  have one: "verify_one [s] pu loader (without_proof d2 i) (proofs d2 ! i) = Inr (entry i)"
    if i: "i < length (proofs d)" for i
  proof -
    let ?p = "proofs d ! i"
    have v: "verify_one [s] pu loader (without_proof d i) ?p = Inr (rs ! i)"
      and ok: "proof_verified (rs ! i)"
      using res i all by (auto simp: list_all_length)
    from v ok obtain kp h where ty: "signature_type s = proof_type ?p"
      and kp: "resolve_method loader (verificationMethod ?p) = Some kp"
      and kt: "key_type_constraint s (key_type kp)"
      and h: "verify_data s (without_proof d i) (proof_options.truncate ?p) = Some h"
      and sg: "raw_verify kp h (signatureValue ?p)"
      by (rule verify_one_verified)
    obtain h' where h': "verify_data s (without_proof d2 i) (proof_options.truncate ?p) = Some h'"
      and diff: "h \<noteq> h'"
      using canonical_changeD[OF assms(3) i] h by (auto simp: d2_def)
    have "\<not> raw_verify kp h' (signatureValue ?p)"
      using assms(4) i kp sg diff unfolding exact_signatures_def
      by (metis nth_mem)
    from verify_one_mismatch[OF ty kp kt h' this] show ?thesis by (simp add: p2 entry_def)
  qed
  have "map (\<lambda>i. verify_one [s] pu loader (without_proof d2 i) (proofs d2 ! i))
          [0..<length (proofs d2)] = map Inr (map entry [0..<length (proofs d)])"
    using one by (simp add: p2)
  then have each: "verify_each [s] pu loader d2 = Inr (map entry [0..<length (proofs d)])"
    by (simp add: verify_each_def collect_Inr_iff)
  have "\<not> list_all proof_verified (map entry [0..<length (proofs d)])"
    using ne by (cases "proofs d") (simp_all add: entry_def list_all_iff upt_conv_Cons)
  then show ?thesis using each ne p2 by (simp add: verify_def d2_def)
qed

theorem tampered_content_not_verified_witness:
  "verify (example_document\<lparr>proofs := [example_proof]\<rparr>) [example_suite] assertion example_loader =
     Inr \<lparr>verified = True,
          results = [\<lparr>result_suite = ''Ed25519Signature2020'',
                      result_method = ''did:key:z6Mk#z6Mk'',
                      proof_verified = True, proof_error = None\<rparr>]\<rparr> \<and>
   canonical_change example_suite (example_document\<lparr>proofs := [example_proof]\<rparr>)
     [(''email'', JString ''b@example.com'')] \<and>
   exact_signatures example_loader (example_document\<lparr>proofs := [example_proof]\<rparr>) \<and>
   verify (example_document\<lparr>content := [(''email'', JString ''b@example.com'')],
                            proofs := [example_proof]\<rparr>) [example_suite] assertion example_loader =
     Inr \<lparr>verified = False,
          results = [\<lparr>result_suite = ''Ed25519Signature2020'',
                      result_method = ''did:key:z6Mk#z6Mk'',
                      proof_verified = False, proof_error = Some SignatureMismatchError\<rparr>]\<rparr>"
proof -
  let ?d = "example_document\<lparr>proofs := [example_proof]\<rparr>"
  have v: "verify ?d [example_suite] assertion example_loader =
     Inr \<lparr>verified = True,
          results = [\<lparr>result_suite = ''Ed25519Signature2020'',
                      result_method = ''did:key:z6Mk#z6Mk'',
                      proof_verified = True, proof_error = None\<rparr>]\<rparr>"
    by (simp add: ld_eval)
  have ok: "verified \<lparr>verified = True,
          results = [\<lparr>result_suite = ''Ed25519Signature2020'',
                      result_method = ''did:key:z6Mk#z6Mk'',
                      proof_verified = True, proof_error = None\<rparr>]\<rparr>"
    by simp
  have cc: "canonical_change example_suite ?d [(''email'', JString ''b@example.com'')]"
    by (simp add: canonical_change_def ld_eval)
  have ex: "exact_signatures example_loader ?d"
    by (simp add: exact_signatures_def example_loader_def example_key_def example_document_def
        example_proof_def)
  have t: "verify (example_document\<lparr>content := [(''email'', JString ''b@example.com'')],
                            proofs := [example_proof]\<rparr>) [example_suite] assertion example_loader =
     Inr \<lparr>verified = False,
          results = [\<lparr>result_suite = ''Ed25519Signature2020'',
                      result_method = ''did:key:z6Mk#z6Mk'',
                      proof_verified = False, proof_error = Some SignatureMismatchError\<rparr>]\<rparr>"
    by (simp add: ld_eval)
  from tampered_content_not_verified[OF v ok cc ex] show ?thesis
    using v cc ex t by simp
qed

text \<open>
  C7.  \<open>verify\<close> of a document without proofs returns \<open>verified = false\<close> and no entries.
  \<open>verify\<close> of any document raises nothing but an infrastructure failure (the loader, the
  canonicalization): never a signature, key type, suite or purpose failure.  When it
  returns and a proof of the document fails its check (\<open>proof_fails\<close>: a tampered
  document), the result has \<open>verified = false\<close>.  And when the infrastructure does not fail
  (\<open>infrastructure_ok\<close>), it returns, with one entry for each proof.
\<close>

theorem verify_fail_soft:
  "(proofs d = [] \<longrightarrow>
      verify d suites pu loader = Inr \<lparr>verified = False, results = []\<rparr>) \<and>
   (\<forall>e. verify d suites pu loader = Inl e \<longrightarrow> infrastructure_failure e) \<and>
   (\<forall>r i. verify d suites pu loader = Inr r \<longrightarrow> i < length (proofs d) \<longrightarrow>
      proof_fails suites pu loader d i \<longrightarrow> \<not> verified r) \<and>
   (infrastructure_ok suites loader d \<longrightarrow>
      (\<exists>r. verify d suites pu loader = Inr r \<and> length (results r) = length (proofs d)))"
proof (intro conjI allI impI)
  assume "proofs d = []"
  then show "verify d suites pu loader = Inr \<lparr>verified = False, results = []\<rparr>"
    by (simp add: verify_def)
next
  fix e
  assume "verify d suites pu loader = Inl e"
  then have "verify_each suites pu loader d = Inl e"
    by (auto simp: verify_def split: if_splits sum.splits)
  then show "infrastructure_failure e" by (rule verify_each_raises)
next
  fix r i
  assume v: "verify d suites pu loader = Inr r" and i: "i < length (proofs d)"
    and f: "proof_fails suites pu loader d i"
  have ne: "proofs d \<noteq> []" using i by auto
  then obtain rs where rs: "verify_each suites pu loader d = Inr rs"
    and r: "r = \<lparr>verified = (rs \<noteq> [] \<and> list_all proof_verified rs), results = rs\<rparr>"
    using v by (auto simp: verify_def split: sum.splits)
  from verify_each_results[OF rs] i have len: "i < length rs"
    and one: "verify_one suites pu loader (without_proof d i) (proofs d ! i) = Inr (rs ! i)"
    by auto
  have "\<not> proof_verified (rs ! i)" using verify_one_fails[OF f one] .
  then have "\<not> list_all proof_verified rs" using len by (auto simp: list_all_iff)
  then show "\<not> verified r" using r by simp
next
  assume ok: "infrastructure_ok suites loader d"
  obtain rs where rs: "verify_each suites pu loader d = Inr rs"
    using verify_each_returns[OF ok] by blast
  have len: "length rs = length (proofs d)" using verify_each_results[OF rs] by simp
  show "\<exists>r. verify d suites pu loader = Inr r \<and> length (results r) = length (proofs d)"
    using rs len by (cases "proofs d = []") (auto simp: verify_def)
qed

theorem verify_fail_soft_witness:
  "verify example_document [example_suite] assertion example_loader =
     Inr \<lparr>verified = False, results = []\<rparr> \<and>
   verify (example_document\<lparr>proofs := [unresolved_proof]\<rparr>) [example_suite] assertion
     example_loader = Inl VerificationMethodResolutionError \<and>
   infrastructure_failure VerificationMethodResolutionError \<and>
   proof_fails [example_suite] assertion example_loader
     (example_document\<lparr>content := [(''email'', JString ''b@example.com'')],
                       proofs := [example_proof]\<rparr>) 0 \<and>
   infrastructure_ok [example_suite] example_loader
     (example_document\<lparr>content := [(''email'', JString ''b@example.com'')],
                       proofs := [example_proof]\<rparr>) \<and>
   verify (example_document\<lparr>content := [(''email'', JString ''b@example.com'')],
                            proofs := [example_proof]\<rparr>) [example_suite] assertion example_loader =
     Inr \<lparr>verified = False,
          results = [\<lparr>result_suite = ''Ed25519Signature2020'',
                      result_method = ''did:key:z6Mk#z6Mk'',
                      proof_verified = False, proof_error = Some SignatureMismatchError\<rparr>]\<rparr>"
proof -
  let ?t = "example_document\<lparr>content := [(''email'', JString ''b@example.com'')],
                       proofs := [example_proof]\<rparr>"
  have e: "proofs example_document = []" by (simp add: example_document_def)
  have a: "verify example_document [example_suite] assertion example_loader =
     Inr \<lparr>verified = False, results = []\<rparr>"
    using verify_fail_soft[of example_document "[example_suite]" assertion example_loader] e
    by blast
  have r: "verify (example_document\<lparr>proofs := [unresolved_proof]\<rparr>) [example_suite] assertion
     example_loader = Inl VerificationMethodResolutionError"
    by (simp add: ld_eval unresolved_proof_def)
  have i: "infrastructure_failure VerificationMethodResolutionError"
    using verify_fail_soft[of "example_document\<lparr>proofs := [unresolved_proof]\<rparr>"
        "[example_suite]" assertion example_loader] r
    by blast
  have f: "proof_fails [example_suite] assertion example_loader ?t 0"
    by (simp add: proof_fails_def ld_eval)
  have o: "infrastructure_ok [example_suite] example_loader ?t"
    by (simp add: infrastructure_ok_def ld_eval)
  have t: "verify ?t [example_suite] assertion example_loader =
     Inr \<lparr>verified = False,
          results = [\<lparr>result_suite = ''Ed25519Signature2020'',
                      result_method = ''did:key:z6Mk#z6Mk'',
                      proof_verified = False, proof_error = Some SignatureMismatchError\<rparr>]\<rparr>"
    by (simp add: ld_eval)
  show ?thesis using a r i f o t by simp
qed

end
